theory Spec2Isabelle
  imports Main "HOL-Library.Sublist"
begin

chapter \<open>The management interface script \<^verbatim>\<open>lfs.manage.js\<close>\<close>

text \<open>
  The script binds jQuery event handlers that submit forms, patch the document with the
  server's answer and show notifications.  The development has two parts: first the model
  (the document, the jQuery operations the handlers call, and the handlers themselves, in
  the order of the source), then the properties.
\<close>

section \<open>The document\<close>

text \<open>
  An element carries what the handlers read or write: its tag, class list and attributes,
  and the properties \<^verbatim>\<open>checked\<close>, \<^verbatim>\<open>value\<close>, rendered height and
  visibility.  Markup sent by the server is represented by the forest the browser builds
  from it, so \<^verbatim>\<open>.html(markup)\<close> installs a list of nodes.
\<close>

record props =
  tag :: string
  classes :: "string list"
  attrs :: "(string \<times> string) list"
  checked :: bool
  val :: string
  height :: nat
  hidden :: bool

datatype node = Text string | Elem props "node list"

type_synonym markup = "node list"

type_synonym path = "nat list"

text \<open>A freshly created element: unchecked, empty value, visible.\<close>

definition element :: "string \<Rightarrow> string list \<Rightarrow> (string \<times> string) list \<Rightarrow> props" where
  "element t cs as =
     \<lparr>tag = t, classes = cs, attrs = as, checked = False, val = [], height = 0, hidden = False\<rparr>"

subsection \<open>Selectors and jQuery sets\<close>

text \<open>
  The selectors handed to \<^verbatim>\<open>$()\<close> as strings are simple ones: \<^verbatim>\<open>#id\<close>,
  \<^verbatim>\<open>.class\<close> or a tag name.  An id is taken to name every element that carries it
  (ids are unique in a well-formed document).
\<close>

fun matches :: "string \<Rightarrow> props \<Rightarrow> bool" where
  "matches [] e = False"
| "matches (c # s) e =
     (if c = CHR ''#'' then map_of (attrs e) ''id'' = Some s
      else if c = CHR ''.'' then s \<in> set (classes e)
      else tag e = c # s)"

text \<open>\<^verbatim>\<open>$(sel)\<close>: the matching elements in document order.\<close>

fun select :: "(props \<Rightarrow> bool) \<Rightarrow> node \<Rightarrow> props list" where
  "select P (Text s) = []"
| "select P (Elem e ks) = (if P e then [e] else []) @ concat (map (select P) ks)"

fun map_elems :: "(props \<Rightarrow> props) \<Rightarrow> node \<Rightarrow> node" where
  "map_elems f (Text s) = Text s"
| "map_elems f (Elem e ks) = Elem (f e) (map (map_elems f) ks)"

text \<open>A property setter applied to every element of a jQuery set.\<close>

definition each :: "(props \<Rightarrow> bool) \<Rightarrow> (props \<Rightarrow> props) \<Rightarrow> node \<Rightarrow> node" where
  "each P f d = map_elems (\<lambda>e. if P e then f e else e) d"

text \<open>
  \<^verbatim>\<open>$(sel).html(markup)\<close>: the contents of every matching element are replaced.  What
  was inside a matching element is gone, so the replacement does not descend into it.
\<close>

fun set_html :: "(props \<Rightarrow> bool) \<Rightarrow> markup \<Rightarrow> node \<Rightarrow> node" where
  "set_html P m (Text s) = Text s"
| "set_html P m (Elem e ks) = (if P e then Elem e m else Elem e (map (set_html P m) ks))"

subsection \<open>Paths\<close>

text \<open>
  The element an event fires on (\<^verbatim>\<open>this\<close>) is addressed by its path from the root:
  the child indices on the way down.
\<close>

fun node_at :: "path \<Rightarrow> node \<Rightarrow> node option" where
  "node_at [] d = Some d"
| "node_at (i # p) (Text s) = None"
| "node_at (i # p) (Elem e ks) = (if i < length ks then node_at p (ks ! i) else None)"

fun update_at :: "path \<Rightarrow> (node \<Rightarrow> node) \<Rightarrow> node \<Rightarrow> node" where
  "update_at [] f d = f d"
| "update_at (i # p) f (Text s) = Text s"
| "update_at (i # p) f (Elem e ks) =
     (if i < length ks then Elem e (ks[i := update_at p f (ks ! i)]) else Elem e ks)"

definition replace_at :: "path \<Rightarrow> node \<Rightarrow> node \<Rightarrow> node" where
  "replace_at p n d = update_at p (\<lambda>_. n) d"

definition map_props :: "(props \<Rightarrow> props) \<Rightarrow> node \<Rightarrow> node" where
  "map_props f n = (case n of Text s \<Rightarrow> Text s | Elem e ks \<Rightarrow> Elem (f e) ks)"

definition map_kids :: "(node list \<Rightarrow> node list) \<Rightarrow> node \<Rightarrow> node" where
  "map_kids f n = (case n of Text s \<Rightarrow> Text s | Elem e ks \<Rightarrow> Elem e (f ks))"

text \<open>\<^verbatim>\<open>.attr(name)\<close> read into a string: a missing attribute reads as \<^verbatim>\<open>undefined\<close>.\<close>

definition attr :: "string \<Rightarrow> props \<Rightarrow> string option" where
  "attr k e = map_of (attrs e) k"

definition js_string :: "string option \<Rightarrow> string" where
  "js_string v = (case v of None \<Rightarrow> ''undefined'' | Some s \<Rightarrow> s)"

definition has_class :: "string \<Rightarrow> props \<Rightarrow> bool" where
  "has_class c e = (c \<in> set (classes e))"

definition add_class :: "string \<Rightarrow> props \<Rightarrow> props" where
  "add_class c e = (if c \<in> set (classes e) then e else e\<lparr>classes := classes e @ [c]\<rparr>)"

definition remove_class :: "string \<Rightarrow> props \<Rightarrow> props" where
  "remove_class c e = e\<lparr>classes := filter (\<lambda>x. x \<noteq> c) (classes e)\<rparr>"

section \<open>Layout helpers\<close>

text \<open>
  \<^verbatim>\<open>.height()\<close> reads the first matched element and gives \<^verbatim>\<open>null\<close> on an empty
  set; \<^verbatim>\<open>.height(h)\<close> sets every matched element.  \<^verbatim>\<open>Math.max\<close> reads
  \<^verbatim>\<open>null\<close> as 0.
\<close>

definition height_get :: "string \<Rightarrow> node \<Rightarrow> nat option" where
  "height_get sel d = (case select (matches sel) d of [] \<Rightarrow> None | e # _ \<Rightarrow> Some (height e))"

definition height_set :: "string \<Rightarrow> nat \<Rightarrow> node \<Rightarrow> node" where
  "height_set sel h d = each (matches sel) (\<lambda>e. e\<lparr>height := h\<rparr>) d"

definition Math_max :: "nat option \<Rightarrow> nat option \<Rightarrow> nat" where
  "Math_max a b =
     max (case a of None \<Rightarrow> 0 | Some x \<Rightarrow> x) (case b of None \<Rightarrow> 0 | Some y \<Rightarrow> y)"

definition align_related_products_buttons :: "node \<Rightarrow> node" where
  "align_related_products_buttons d =
     (let hl = height_get ''#related-products-left'' d;
          hr = height_get ''#related-products-right'' d;
          h = Math_max hl hr
      in height_set ''#related-products-right'' h (height_set ''#related-products-left'' h d))"

definition align_accessories_buttons :: "node \<Rightarrow> node" where
  "align_accessories_buttons d =
     (let hl = height_get ''#accessories-left'' d;
          hr = height_get ''#accessories-right'' d;
          h = Math_max hl hr
      in height_set ''#accessories-right'' h (height_set ''#accessories-left'' h d))"

definition align_topsellers_buttons :: "node \<Rightarrow> node" where
  "align_topsellers_buttons d =
     (let hl = height_get ''#topseller-left'' d;
          hr = height_get ''#topseller-right'' d;
          h = Math_max hl hr
      in height_set ''#topseller-right'' h (height_set ''#topseller-left'' h d))"

definition align_buttons :: "string \<Rightarrow> node \<Rightarrow> node" where
  "align_buttons ident d =
     (let hl = height_get (ident @ ''-left'') d;
          hr = height_get (ident @ ''-right'') d;
          h = Math_max hl hr
      in height_set (ident @ ''-right'') h (height_set (ident @ ''-left'') h d))"

definition hide_ajax_loading :: "node \<Rightarrow> node" where
  "hide_ajax_loading d = each (matches ''.ajax-loading'') (\<lambda>e. e\<lparr>hidden := True\<rparr>) d"

definition show_ajax_loading :: "node \<Rightarrow> node" where
  "show_ajax_loading d = each (matches ''.ajax-loading'') (\<lambda>e. e\<lparr>hidden := False\<rparr>) d"

subsection \<open>Criterion positions\<close>

text \<open>Numbers are written into form fields as decimal strings.\<close>

definition digit_char :: "nat \<Rightarrow> char" where
  "digit_char n = ''0123456789'' ! n"

fun string_of_nat :: "nat \<Rightarrow> string" where
  "string_of_nat n =
     (if n < 10 then [digit_char n] else string_of_nat (n div 10) @ [digit_char (n mod 10)])"

text \<open>
  \<^verbatim>\<open>update_positions\<close>: the callback of \<^verbatim>\<open>$(".position").each\<close> runs on the
  matching elements in document order and threads the counter \<^verbatim>\<open>position\<close>.
\<close>

fun each_position :: "nat \<Rightarrow> node \<Rightarrow> node \<times> nat"
  and each_position_list :: "nat \<Rightarrow> node list \<Rightarrow> node list \<times> nat" where
  "each_position position (Text s) = (Text s, position)"
| "each_position position (Elem e ks) =
     (if matches ''.position'' e
      then (let position' = position + 10;
                (ks', position'') = each_position_list position' ks
            in (Elem (e\<lparr>val := string_of_nat position'\<rparr>) ks', position''))
      else (let (ks', position'') = each_position_list position ks
            in (Elem e ks', position'')))"
| "each_position_list position [] = ([], position)"
| "each_position_list position (k # ks) =
     (let (k', position') = each_position position k;
          (ks', position'') = each_position_list position' ks
      in (k' # ks', position''))"

definition update_positions :: "node \<Rightarrow> node" where
  "update_positions d = fst (each_position 0 d)"

text \<open>
  \<^verbatim>\<open>$(sel).prepend(markup)\<close> puts the markup in front of the contents of every
  matching element.
\<close>

fun prepend :: "(props \<Rightarrow> bool) \<Rightarrow> markup \<Rightarrow> node \<Rightarrow> node" where
  "prepend P m (Text s) = Text s"
| "prepend P m (Elem e ks) = Elem e ((if P e then m else []) @ map (prepend P m) ks)"

text \<open>The success callback of the \<^verbatim>\<open>.criterion-add-first-button\<close> click handler.\<close>

definition criterion_add_first_button_success :: "markup \<Rightarrow> node \<Rightarrow> node" where
  "criterion_add_first_button_success data d =
     update_positions (prepend (matches ''.criteria'') data d)"

section \<open>Envelope responses\<close>

text \<open>
  A parsed JSON envelope: the list \<^verbatim>\<open>data["html"]\<close> of (selector, markup) pairs, empty
  when the key is missing (the \<^verbatim>\<open>for ... in\<close> loop then has nothing to run over), and
  \<^verbatim>\<open>data["message"]\<close>, \<open>None\<close> when the key is missing.
\<close>

record envelope =
  html :: "(string \<times> markup) list"
  message :: "string option"

text \<open>
  The page as the callbacks see it: the document and the calls of \<^verbatim>\<open>$.jGrowl\<close> so far,
  each with its argument (\<open>None\<close> for \<^verbatim>\<open>undefined\<close>).
\<close>

record page =
  document :: node
  notifications :: "string option list"

definition jGrowl :: "string option \<Rightarrow> page \<Rightarrow> page" where
  "jGrowl m pg = pg\<lparr>notifications := notifications pg @ [m]\<rparr>"

text \<open>\<^verbatim>\<open>if (data["message"])\<close>: a missing message and the empty string are falsy.\<close>

definition truthy :: "string option \<Rightarrow> bool" where
  "truthy v = (case v of None \<Rightarrow> False | Some s \<Rightarrow> s \<noteq> [])"

text \<open>
  \<^verbatim>\<open>for (var html in data["html"]) $(data["html"][html][0]).html(data["html"][html][1]);\<close>
\<close>

fun apply_html :: "(string \<times> markup) list \<Rightarrow> node \<Rightarrow> node" where
  "apply_html [] d = d"
| "apply_html ((sel, m) # rest) d = apply_html rest (set_html (matches sel) m d)"

text \<open>The success callbacks, as in the source.\<close>

definition product_name_filter_success :: "envelope \<Rightarrow> page \<Rightarrow> page" where
  "product_name_filter_success data pg =
     (let pg1 = pg\<lparr>document := apply_html (html data) (document pg)\<rparr>
      in if truthy (message data) then jGrowl (message data) pg1 else pg1)"

definition ajax_save_button_success :: "envelope \<Rightarrow> page \<Rightarrow> page" where
  "ajax_save_button_success data pg =
     (let pg1 = pg\<lparr>document := apply_html (html data) (document pg)\<rparr>
      in jGrowl (message data) pg1)"

definition ajax_save_button_2_success :: "envelope \<Rightarrow> page \<Rightarrow> page" where
  "ajax_save_button_2_success data pg =
     (let pg1 = pg\<lparr>document := apply_html (html data) (document pg)\<rparr>;
          pg2 = pg1\<lparr>document := hide_ajax_loading (document pg1)\<rparr>
      in if truthy (message data) then jGrowl (message data) pg2 else pg2)"

definition ajax_link_success :: "envelope \<Rightarrow> page \<Rightarrow> page" where
  "ajax_link_success data pg =
     (let pg1 = pg\<lparr>document := apply_html (html data) (document pg)\<rparr>
      in if truthy (message data) then jGrowl (message data) pg1 else pg1)"

text \<open>
  The \<^verbatim>\<open>.category-products-remove-button\<close> callback takes the response as markup, not
  as an envelope.
\<close>

definition category_products_remove_button_success :: "markup \<Rightarrow> page \<Rightarrow> page" where
  "category_products_remove_button_success data pg =
     (let pg1 = pg\<lparr>document := set_html (matches ''#products-inline'') data (document pg)\<rparr>
      in jGrowl (Some ''Produkte wurden von Kategorie entfernt.'') pg1)"

text \<open>
  The callback of the \<^verbatim>\<open>.category-ajax-link\<close> handler (the branch that loads the
  children of a collapsed category) parses an envelope as well, and only patches the
  document.
\<close>

definition category_ajax_link_success :: "envelope \<Rightarrow> page \<Rightarrow> page" where
  "category_ajax_link_success data pg = pg\<lparr>document := apply_html (html data) (document pg)\<rparr>"

section \<open>Remembered interface state\<close>

text \<open>
  \<^verbatim>\<open>$.cookie(name)\<close> reads \<^verbatim>\<open>null\<close> for a cookie that is not set, and
  \<^verbatim>\<open>$.cookie(name, value)\<close> stores the value as a string.
\<close>

type_synonym cookies = "string \<rightharpoonup> string"

subsection \<open>\<^verbatim>\<open>parseInt\<close>\<close>

text \<open>
  \<^verbatim>\<open>parseInt\<close> with no radix: leading white space is skipped, a sign is read, a prefix
  \<^verbatim>\<open>0x\<close> selects radix 16, and the longest run of digits is the value.  With no digit
  the result is \<^verbatim>\<open>NaN\<close>, here \<open>None\<close>.
\<close>

definition is_space :: "char \<Rightarrow> bool" where
  "is_space c = (c \<in> set [CHR '' '', CHR 0x09, CHR 0x0A, CHR 0x0B, CHR 0x0C, CHR 0x0D])"

fun index_of :: "char \<Rightarrow> string \<Rightarrow> nat option" where
  "index_of c [] = None"
| "index_of c (x # xs) =
     (if c = x then Some 0 else (case index_of c xs of None \<Rightarrow> None | Some i \<Rightarrow> Some (Suc i)))"

definition digit_value :: "nat \<Rightarrow> char \<Rightarrow> nat option" where
  "digit_value radix c =
     (case (case index_of c ''0123456789abcdef'' of
              None \<Rightarrow> index_of c ''0123456789ABCDEF'' | Some v \<Rightarrow> Some v) of
        None \<Rightarrow> None
      | Some v \<Rightarrow> if v < radix then Some v else None)"

fun parse_digits :: "nat \<Rightarrow> string \<Rightarrow> nat option \<Rightarrow> nat option" where
  "parse_digits radix [] acc = acc"
| "parse_digits radix (c # s) acc =
     (case digit_value radix c of
        None \<Rightarrow> acc
      | Some v \<Rightarrow>
          parse_digits radix s (Some (case acc of None \<Rightarrow> v | Some a \<Rightarrow> a * radix + v)))"

definition parseInt :: "string \<Rightarrow> int option" where
  "parseInt s =
     (let s1 = dropWhile is_space s;
          negative = (take 1 s1 = ''-'');
          s2 = (if take 1 s1 = ''-'' \<or> take 1 s1 = ''+'' then drop 1 s1 else s1);
          hex = (take 2 s2 = ''0x'' \<or> take 2 s2 = ''0X'');
          radix = (if hex then 16 else 10);
          s3 = (if hex then drop 2 s2 else s2)
      in case parse_digits radix s3 None of
           None \<Rightarrow> None
         | Some n \<Rightarrow> Some (if negative then - int n else int n))"

subsection \<open>Tabs\<close>

text \<open>
  At page load each tab widget is told which tab to select:
  \<^verbatim>\<open>index = (cookie != null) ? parseInt(cookie) : 0; tabs('select', index)\<close>.
  The record holds the two indices handed to \<^verbatim>\<open>tabs('select', _)\<close>.
\<close>

record tabs =
  product_tabs :: "int option"
  category_tabs :: "int option"

definition select_tabs_on_load :: "cookies \<Rightarrow> tabs" where
  "select_tabs_on_load c =
     (let product_tab_cookie = c ''product_tab'';
          index1 = (case product_tab_cookie of None \<Rightarrow> Some 0 | Some v \<Rightarrow> parseInt v);
          category_tab_cookie = c ''category_tab'';
          index2 = (case category_tab_cookie of None \<Rightarrow> Some 0 | Some v \<Rightarrow> parseInt v)
      in \<lparr>product_tabs = index1, category_tabs = index2\<rparr>)"

text \<open>The \<^verbatim>\<open>tabsshow\<close> handlers store the index of the tab shown.\<close>

definition product_tabs_show :: "nat \<Rightarrow> cookies \<Rightarrow> cookies" where
  "product_tabs_show index c = c(''product_tab'' \<mapsto> string_of_nat index)"

definition category_tabs_show :: "nat \<Rightarrow> cookies \<Rightarrow> cookies" where
  "category_tabs_show index c = c(''category_tab'' \<mapsto> string_of_nat index)"

subsection \<open>Property edit mode\<close>

definition property_edit_mode_click :: "cookies \<times> node \<Rightarrow> cookies \<times> node" where
  "property_edit_mode_click st =
     (let (c, d) = st; em = c ''property-edit-mode''
      in if em = Some ''true''
         then (c(''property-edit-mode'' \<mapsto> ''false''),
               each (matches ''.property-edit-field'') (\<lambda>e. e\<lparr>hidden := True\<rparr>) d)
         else (c(''property-edit-mode'' \<mapsto> ''true''),
               each (matches ''.property-edit-field'') (\<lambda>e. e\<lparr>hidden := False\<rparr>) d))"

section \<open>Filter fields and timers\<close>

text \<open>
  What the keyup handlers of the filter fields touch: the browser's pending timers
  (\<^verbatim>\<open>setTimeout\<close>, \<^verbatim>\<open>clearTimeout\<close>), the global variable \<^verbatim>\<open>timeout\<close> (\<open>None\<close>
  while it has never been assigned, when reading it throws and the \<^verbatim>\<open>try\<close> catches),
  the current text of each form's filter field, and the requests sent so far.  Times are
  in milliseconds.  A request is recorded with the time it is sent, the form submitted and
  the field text serialized at that moment.
\<close>

record timer =
  timer_id :: nat
  due :: nat
  timer_form :: string

record browser =
  timeout :: "nat option"
  timers :: "timer list"
  next_timer :: nat
  field_text :: "string \<Rightarrow> string"
  requests :: "(nat \<times> string \<times> string) list"

definition page_loaded :: browser where
  "page_loaded = \<lparr>timeout = None, timers = [], next_timer = 1, field_text = (\<lambda>_. []), requests = []\<rparr>"

definition ajaxSubmit :: "nat \<Rightarrow> string \<Rightarrow> browser \<Rightarrow> browser" where
  "ajaxSubmit t form b = b\<lparr>requests := requests b @ [(t, form, field_text b form)]\<rparr>"

definition clearTimeout :: "nat \<Rightarrow> browser \<Rightarrow> browser" where
  "clearTimeout i b = b\<lparr>timers := filter (\<lambda>x. timer_id x \<noteq> i) (timers b)\<rparr>"

definition setTimeout :: "nat \<Rightarrow> string \<Rightarrow> browser \<Rightarrow> nat \<times> browser" where
  "setTimeout at form b =
     (next_timer b,
      b\<lparr>timers := timers b @ [\<lparr>timer_id = next_timer b, due = at, timer_form = form\<rparr>],
        next_timer := next_timer b + 1\<rparr>)"

text \<open>
  The \<^verbatim>\<open>.products-name-filter\<close> keyup handler, run at time \<open>t\<close> on a field of
  \<open>form\<close>; the timer's callback submits that form.
\<close>

definition products_name_filter_keyup :: "nat \<Rightarrow> string \<Rightarrow> browser \<Rightarrow> browser" where
  "products_name_filter_keyup t form b =
     (let b1 = (case timeout b of None \<Rightarrow> b | Some i \<Rightarrow> clearTimeout i b);
          (i, b2) = setTimeout (t + 500) form b1
      in b2\<lparr>timeout := Some i\<rparr>)"

text \<open>The \<^verbatim>\<open>.category-products-filter-input\<close> keyup handler submits at once.\<close>

definition category_products_filter_input_keyup :: "nat \<Rightarrow> browser \<Rightarrow> browser" where
  "category_products_filter_input_keyup t b = ajaxSubmit t ''#category-products-filter-form'' b"

text \<open>
  The event loop: before an event at time \<open>t\<close> is handled, the timers due by then fire in
  the order of their due times, each at its due time.
\<close>

definition fire :: "timer \<Rightarrow> browser \<Rightarrow> browser" where
  "fire tm b = ajaxSubmit (due tm) (timer_form tm) b"

definition run_timers :: "nat \<Rightarrow> browser \<Rightarrow> browser" where
  "run_timers t b =
     fold fire (sort_key due (filter (\<lambda>x. due x \<le> t) (timers b)))
       (b\<lparr>timers := filter (\<lambda>x. \<not> due x \<le> t) (timers b)\<rparr>)"

text \<open>When no more events come, every pending timer fires.\<close>

definition quiesce :: "browser \<Rightarrow> browser" where
  "quiesce b = fold fire (sort_key due (timers b)) (b\<lparr>timers := []\<rparr>)"

text \<open>
  Typing: a keystroke \<open>(t, form, text)\<close> leaves \<open>text\<close> in the filter field of \<open>form\<close>
  at time \<open>t\<close> and raises keyup there.
\<close>

definition type_text :: "string \<Rightarrow> string \<Rightarrow> browser \<Rightarrow> browser" where
  "type_text form text b = b\<lparr>field_text := (field_text b)(form := text)\<rparr>"

fun products_name_typing :: "(nat \<times> string \<times> string) list \<Rightarrow> browser \<Rightarrow> browser" where
  "products_name_typing [] b = b"
| "products_name_typing ((t, form, text) # ks) b =
     products_name_typing ks
       (products_name_filter_keyup t form (type_text form text (run_timers t b)))"

fun category_products_typing :: "(nat \<times> string) list \<Rightarrow> browser \<Rightarrow> browser" where
  "category_products_typing [] b = b"
| "category_products_typing ((t, text) # ks) b =
     category_products_typing ks
       (category_products_filter_input_keyup t
          (type_text ''#category-products-filter-form'' text (run_timers t b)))"

text \<open>A burst of keystrokes: in time order, each less than 500 ms after the one before.\<close>

fun quiet_burst :: "(nat \<times> string \<times> string) list \<Rightarrow> bool" where
  "quiet_burst [] = True"
| "quiet_burst [k] = True"
| "quiet_burst (k1 # k2 # ks) =
     (fst k1 \<le> fst k2 \<and> fst k2 < fst k1 + 500 \<and> quiet_burst (k2 # ks))"

section \<open>Selecting product rows\<close>

text \<open>
  \<^verbatim>\<open>.parents()\<close> walks from the parent of \<^verbatim>\<open>this\<close> to the root: the proper prefixes of
  the path, nearest first.
\<close>

definition ancestors :: "path \<Rightarrow> path list" where
  "ancestors p = rev (butlast (prefixes p))"

definition is_tag :: "string \<Rightarrow> node \<Rightarrow> bool" where
  "is_tag t n = (case n of Text s \<Rightarrow> False | Elem e ks \<Rightarrow> tag e = t)"

definition node_has_class :: "string \<Rightarrow> node \<Rightarrow> bool" where
  "node_has_class c n = (case n of Text s \<Rightarrow> False | Elem e ks \<Rightarrow> has_class c e)"

text \<open>\<^verbatim>\<open>$(this).parents("tr:first")\<close>: the nearest enclosing table row, if any.\<close>

definition closest_tr :: "path \<Rightarrow> node \<Rightarrow> path option" where
  "closest_tr p d =
     find (\<lambda>q. case node_at q d of None \<Rightarrow> False | Some n \<Rightarrow> is_tag ''tr'' n) (ancestors p)"

text \<open>
  The body of the two \<^verbatim>\<open>.each\<close> callbacks on a row, after the test that ends the loop:
  for \<open>b = True\<close> the row gets the class \<^verbatim>\<open>marked\<close> and every \<^verbatim>\<open>input.select-1\<close>
  inside it is checked, for \<open>b = False\<close> the class is removed and the inputs are
  unchecked.
\<close>

definition set_marked :: "bool \<Rightarrow> props \<Rightarrow> props" where
  "set_marked b e = (if b then add_class ''marked'' e else remove_class ''marked'' e)"

definition check_row :: "bool \<Rightarrow> node \<Rightarrow> node" where
  "check_row b n =
     map_kids (map (each (\<lambda>e. tag e = ''input'' \<and> has_class ''select-1'' e)
                      (\<lambda>e. e\<lparr>checked := b\<rparr>)))
       (map_props (set_marked b) n)"

text \<open>
  \<^verbatim>\<open>tr.prevAll("tr").each(...)\<close>: the list is the siblings before the row, nearest
  first; siblings that are not rows are not in the jQuery set and stay as they are.  The
  loop ends (\<^verbatim>\<open>return false\<close>) at the first row that is already marked, for
  \<open>b = True\<close>, or at the first row that is not marked, for \<open>b = False\<close>.
\<close>

fun prev_all_each :: "bool \<Rightarrow> node list \<Rightarrow> node list" where
  "prev_all_each b [] = []"
| "prev_all_each b (n # ns) =
     (if is_tag ''tr'' n
      then (if node_has_class ''marked'' n = b then n # ns
            else check_row b n # prev_all_each b ns)
      else n # prev_all_each b ns)"

definition prev_all_rows :: "bool \<Rightarrow> nat \<Rightarrow> node list \<Rightarrow> node list" where
  "prev_all_rows b i ks = rev (prev_all_each b (rev (take i ks))) @ drop i ks"

text \<open>
  The click handler of \<^verbatim>\<open>input.select-1\<close>, on the input at path \<open>p\<close>; the browser has
  already toggled the checkbox when the handler runs.
\<close>

definition select_1_click :: "bool \<Rightarrow> path \<Rightarrow> node \<Rightarrow> node" where
  "select_1_click shiftKey p d =
     (case node_at p d of
        Some (Elem e ks) \<Rightarrow>
          (case closest_tr p d of
             None \<Rightarrow> d
           | Some tr \<Rightarrow>
               if checked e then
                 (let d1 = update_at tr (map_props (set_marked True)) d
                  in if shiftKey \<and> tr \<noteq> []
                     then update_at (butlast tr) (map_kids (prev_all_rows True (last tr))) d1
                     else d1)
               else
                 (let d1 = update_at tr (map_props (set_marked False)) d
                  in if shiftKey \<and> tr \<noteq> []
                     then update_at (butlast tr) (map_kids (prev_all_rows False (last tr))) d1
                     else d1))
      | _ \<Rightarrow> d)"

section \<open>Confirmation links\<close>

text \<open>
  The variable \<^verbatim>\<open>confirmation\<close> holds the element a confirmation replaced, \<open>None\<close>
  while it is \<^verbatim>\<open>undefined\<close>.  The remembered element is outside the document from
  the moment its widget replaces it, which is the situation \<^verbatim>\<open>replaceWith\<close> is modelled
  for: the element is put where the widget was.
\<close>

record static_blocks =
  blocks :: node
  confirmation :: "node option"

text \<open>
  The widget built by the \<^verbatim>\<open>.confirmation-link\<close> handler from the strings
  \<^verbatim>\<open>cls\<close>, \<^verbatim>\<open>data\<close> and \<^verbatim>\<open>url\<close>:
  \<^verbatim>\<open><span><span class='cls'>data</span> <a href='url'>Yes</a> <a class='confirmation-link-no' href=''>No</a></span>\<close>
\<close>

definition confirmation_widget :: "props \<Rightarrow> node" where
  "confirmation_widget e =
     (let url = js_string (attr ''href'' e);
          data = js_string (attr ''data'' e);
          cls = classes e
      in Elem (element ''span'' [] [])
           [Elem (element ''span'' cls []) [Text data],
            Text '' '',
            Elem (element ''a'' [] [(''href'', url)]) [Text ''Yes''],
            Text '' '',
            Elem (element ''a'' [''confirmation-link-no''] [(''href'', [])]) [Text ''No'']])"

text \<open>The widget written out as markup, to compare with the source's string.\<close>

fun join :: "string list \<Rightarrow> string" where
  "join [] = []"
| "join [c] = c"
| "join (c # cs) = c @ '' '' @ join cs"

fun render :: "node \<Rightarrow> string" where
  "render (Text s) = s"
| "render (Elem e ks) =
     ''<'' @ tag e
       @ (if classes e = [] then [] else '' class='' @ [CHR 0x27] @ join (classes e) @ [CHR 0x27])
       @ concat (map (\<lambda>(k, v). '' '' @ k @ ''='' @ [CHR 0x27] @ v @ [CHR 0x27]) (attrs e))
       @ ''>'' @ concat (map render ks) @ ''</'' @ tag e @ ''>''"

definition remove_at :: "path \<Rightarrow> node \<Rightarrow> node" where
  "remove_at p d =
     (if p = [] then d
      else update_at (butlast p) (map_kids (\<lambda>ks. take (last p) ks @ drop (Suc (last p)) ks)) d)"

text \<open>
  The two click handlers, on the element at path \<open>p\<close>.  Both end in
  \<^verbatim>\<open>return false\<close>, the second component of the result.
\<close>

definition confirmation_link_no_click :: "path \<Rightarrow> static_blocks \<Rightarrow> static_blocks \<times> bool" where
  "confirmation_link_no_click p st =
     (if p = [] then (st, False)
      else (case confirmation st of
              None \<Rightarrow> (st\<lparr>blocks := remove_at (butlast p) (blocks st)\<rparr>, False)
            | Some n \<Rightarrow> (st\<lparr>blocks := replace_at (butlast p) n (blocks st)\<rparr>, False)))"

definition confirmation_link_click :: "path \<Rightarrow> static_blocks \<Rightarrow> static_blocks \<times> bool" where
  "confirmation_link_click p st =
     (case node_at p (blocks st) of
        Some (Elem e ks) \<Rightarrow>
          (st\<lparr>confirmation := Some (Elem e ks),
              blocks := replace_at p (confirmation_widget e) (blocks st)\<rparr>, False)
      | _ \<Rightarrow> (st, False))"

subsection \<open>Dispatching a click\<close>

text \<open>
  \<^verbatim>\<open>.live("click", ...)\<close>: a click on the element at \<open>p\<close> runs the handler of the
  nearest element, from \<open>p\<close> upwards, that matches one of the two selectors; on an
  element matching both, the handler bound first (\<^verbatim>\<open>.confirmation-link-no\<close>) runs.  A
  handler returning \<^verbatim>\<open>false\<close> ends the dispatch and suppresses the browser's default
  action.  The default action of a click inside a link is to navigate to its
  \<^verbatim>\<open>href\<close>.
\<close>

datatype outcome = Stays | Navigates string

definition live_target :: "path \<Rightarrow> node \<Rightarrow> path option" where
  "live_target p d =
     find (\<lambda>q. case node_at q d of
                 Some (Elem e ks) \<Rightarrow>
                   has_class ''confirmation-link-no'' e \<or> has_class ''confirmation-link'' e
               | _ \<Rightarrow> False)
       (p # ancestors p)"

definition default_action :: "path \<Rightarrow> node \<Rightarrow> outcome" where
  "default_action p d =
     (case find (\<lambda>q. case node_at q d of
                       Some (Elem e ks) \<Rightarrow> tag e = ''a'' \<and> attr ''href'' e \<noteq> None
                     | _ \<Rightarrow> False)
             (p # ancestors p) of
        None \<Rightarrow> Stays
      | Some q \<Rightarrow>
          (case node_at q d of
             Some (Elem e ks) \<Rightarrow> Navigates (js_string (attr ''href'' e))
           | _ \<Rightarrow> Stays))"

definition click :: "path \<Rightarrow> static_blocks \<Rightarrow> static_blocks \<times> outcome" where
  "click p st =
     (case live_target p (blocks st) of
        None \<Rightarrow> (st, default_action p (blocks st))
      | Some q \<Rightarrow>
          (case node_at q (blocks st) of
             Some (Elem e ks) \<Rightarrow>
               (let (st', r) = (if has_class ''confirmation-link-no'' e
                                then confirmation_link_no_click q st
                                else confirmation_link_click q st)
                in (st', if r then default_action p (blocks st') else Stays))
           | _ \<Rightarrow> (st, Stays)))"

section \<open>The export category tree\<close>

text \<open>
  A request as the handlers issue it: the URL (\<open>None\<close> when the attribute it is read
  from is missing), the \<^verbatim>\<open>action\<close> field of the posted data (\<open>None\<close> when nothing is
  posted), and the callback to run on success.
\<close>

datatype callback = Toggle_done path | Category_state

record request =
  req_url :: "string option"
  req_action :: "string option"
  on_success :: callback

text \<open>\<^verbatim>\<open>$(sel)\<close> as the matching elements themselves, in document order.\<close>

fun select_nodes :: "(props \<Rightarrow> bool) \<Rightarrow> node \<Rightarrow> node list" where
  "select_nodes P (Text s) = []"
| "select_nodes P (Elem e ks) = (if P e then [Elem e ks] else []) @ concat (map (select_nodes P) ks)"

text \<open>
  \<^verbatim>\<open>update_parent_categories\<close>: one request for every \<^verbatim>\<open>li.category\<close> above the
  knot, nearest first, to the URL in its \<^verbatim>\<open>data\<close> attribute.
\<close>

definition li_category :: "node option \<Rightarrow> bool" where
  "li_category n =
     (case n of Some (Elem e ks) \<Rightarrow> tag e = ''li'' \<and> has_class ''category'' e | _ \<Rightarrow> False)"

definition attr_at :: "string \<Rightarrow> path \<Rightarrow> node \<Rightarrow> string option" where
  "attr_at k q d = (case node_at q d of Some (Elem e ks) \<Rightarrow> attr k e | _ \<Rightarrow> None)"

definition update_parent_categories :: "path \<Rightarrow> node \<Rightarrow> request list" where
  "update_parent_categories knot d =
     map (\<lambda>q. \<lparr>req_url = attr_at ''data'' q d, req_action = None, on_success = Category_state\<rparr>)
       (filter (\<lambda>q. li_category (node_at q d)) (ancestors knot))"

text \<open>The callback of those requests, on the parsed answer.\<close>

record category_state =
  state_html :: "string \<times> markup"
  state_checkbox :: "string \<times> bool"

definition category_state_success :: "category_state \<Rightarrow> node \<Rightarrow> node" where
  "category_state_success data d =
     (let d1 = set_html (matches (fst (state_html data))) (snd (state_html data)) d
      in each (matches (fst (state_checkbox data)))
           (\<lambda>e. e\<lparr>checked := snd (state_checkbox data)\<rparr>) d1)"

text \<open>
  \<^verbatim>\<open>update_sub_categories\<close>: \<^verbatim>\<open>knot.parent().find(".category-state").html("")\<close>.  An
  element at the root has no parent.
\<close>

definition update_sub_categories :: "path \<Rightarrow> node \<Rightarrow> node" where
  "update_sub_categories knot d =
     (if knot = [] then d
      else update_at (butlast knot)
             (map_kids (map (set_html (matches ''.category-state'') []))) d)"

text \<open>
  The click handler of \<^verbatim>\<open>.export-category-input\<close>, on the input at path \<open>p\<close>, which
  the browser has already toggled, and the callback of its request.
\<close>

definition export_category_input_click :: "path \<Rightarrow> node \<Rightarrow> node \<times> request list" where
  "export_category_input_click p d =
     (case node_at p d of
        Some (Elem e ks) \<Rightarrow>
          (let parent_checked = checked e;
               d1 = (if p = [] then d
                     else update_at (butlast p)
                            (map_kids (map (each (\<lambda>e. tag e = ''input'')
                                              (\<lambda>e. e\<lparr>checked := parent_checked\<rparr>)))) d);
               url = attr ''data'' e
           in if parent_checked
              then (d1, [\<lparr>req_url = url, req_action = Some ''add'', on_success = Toggle_done p\<rparr>])
              else (d1, [\<lparr>req_url = url, req_action = Some ''remove'', on_success = Toggle_done p\<rparr>]))
      | _ \<Rightarrow> (d, []))"

definition toggle_done :: "path \<Rightarrow> node \<Rightarrow> node \<times> request list" where
  "toggle_done input d =
     (let d1 = update_sub_categories input d
      in (d1, update_parent_categories input d1))"

section \<open>Adding and changing criteria\<close>

text \<open>
  The success callbacks of the \<^verbatim>\<open>.criterion-add-button\<close> click handler and of the
  \<^verbatim>\<open>select.criterion-type\<close> change handler.  Both handlers take the row of the
  element they fire on (\<^verbatim>\<open>$(this).parents("tr:first")\<close>, at path \<open>p\<close>); the first puts
  the returned markup after that row, the second puts it in the row's place.  Both then
  renumber the positions.  Without such a row nothing is inserted.
\<close>

definition criterion_add_button_success :: "path \<Rightarrow> markup \<Rightarrow> node \<Rightarrow> node" where
  "criterion_add_button_success p data d =
     update_positions
       (case closest_tr p d of
          None \<Rightarrow> d
        | Some criterion \<Rightarrow>
            if criterion = [] then d
            else update_at (butlast criterion)
                   (map_kids (\<lambda>ks. take (Suc (last criterion)) ks @ data
                                      @ drop (Suc (last criterion)) ks)) d)"

definition criterion_type_change_success :: "path \<Rightarrow> markup \<Rightarrow> node \<Rightarrow> node" where
  "criterion_type_change_success p data d =
     update_positions
       (case closest_tr p d of
          None \<Rightarrow> d
        | Some target \<Rightarrow>
            if target = [] then d
            else update_at (butlast target)
                   (map_kids (\<lambda>ks. take (last target) ks @ data @ drop (Suc (last target)) ks)) d)"

section \<open>Envelopes with named fragments\<close>

text \<open>
  Most callbacks read the parsed envelope by key: \<^verbatim>\<open>data[key]\<close> is a piece of markup
  for one fixed container, and \<^verbatim>\<open>data["message"]\<close> the notification.  A key that is
  missing reads as \<^verbatim>\<open>undefined\<close>, here \<open>None\<close>; \<^verbatim>\<open>.html(undefined)\<close> only reads
  and leaves the document as it is.
\<close>

record named_envelope =
  fragments :: "string \<Rightarrow> markup option"
  msg :: "string option"

text \<open>\<^verbatim>\<open>$(sel).html(data[key])\<close>\<close>

definition html_key :: "string \<Rightarrow> string \<Rightarrow> named_envelope \<Rightarrow> page \<Rightarrow> page" where
  "html_key sel key data pg =
     (case fragments data key of
        None \<Rightarrow> pg
      | Some m \<Rightarrow> pg\<lparr>document := set_html (matches sel) m (document pg)\<rparr>)"

text \<open>A step that only works on the document.\<close>

definition on_document :: "(node \<Rightarrow> node) \<Rightarrow> page \<Rightarrow> page" where
  "on_document f pg = pg\<lparr>document := f (document pg)\<rparr>"

text \<open>
  The success callbacks, one for each handler, in the order of the source and named after
  the handler's selector.  Two calls into other scripts leave no trace in this model:
  \<^verbatim>\<open>DateTimeShortcuts.init()\<close> in the \<^verbatim>\<open>.product-stock-button\<close> callback and
  \<^verbatim>\<open>$("#dialog").dialog("close")\<close> at the start of the
  \<^verbatim>\<open>.ajax-portlet-save-button\<close> callback.
\<close>

definition criterion_save_button_success :: "named_envelope \<Rightarrow> page \<Rightarrow> page" where
  "criterion_save_button_success data pg =
     (let pg1 = html_key ''#criteria'' ''criteria'' data pg;
          pg2 = jGrowl (msg data) pg1
      in pg2)"

definition price_criterion_save_button_success :: "named_envelope \<Rightarrow> page \<Rightarrow> page" where
  "price_criterion_save_button_success data pg =
     (let pg1 = html_key ''#prices'' ''prices'' data pg;
          pg2 = html_key ''#price-criteria'' ''criteria'' data pg1;
          pg3 = jGrowl (msg data) pg2
      in pg3)"

definition category_products_add_button_success :: "named_envelope \<Rightarrow> page \<Rightarrow> page" where
  "category_products_add_button_success data pg =
     (let pg1 = html_key ''#products-inline'' ''products'' data pg;
          pg2 = jGrowl (msg data) pg1
      in pg2)"

definition category_seo_button_success :: "named_envelope \<Rightarrow> page \<Rightarrow> page" where
  "category_seo_button_success data pg =
     (let pg1 = html_key ''#seo'' ''seo'' data pg;
          pg2 = jGrowl (msg data) pg1
      in pg2)"

definition product_images_update_button_success :: "named_envelope \<Rightarrow> page \<Rightarrow> page" where
  "product_images_update_button_success data pg =
     (let pg1 = html_key ''#images'' ''images'' data pg;
          pg2 = jGrowl (msg data) pg1
      in pg2)"

definition product_data_save_button_success :: "named_envelope \<Rightarrow> page \<Rightarrow> page" where
  "product_data_save_button_success data pg =
     (let pg1 = html_key ''#data'' ''form'' data pg;
          pg2 = html_key ''#selectable-products'' ''selectable_products'' data pg1;
          pg3 = jGrowl (msg data) pg2
      in pg3)"

definition product_categories_save_button_success :: "named_envelope \<Rightarrow> page \<Rightarrow> page" where
  "product_categories_save_button_success data pg =
     (let pg1 = jGrowl (msg data) pg
      in pg1)"

definition variants_add_button_success :: "named_envelope \<Rightarrow> page \<Rightarrow> page" where
  "variants_add_button_success data pg =
     (let pg1 = html_key ''#variants'' ''properties'' data pg;
          pg2 = html_key ''#selectable-products'' ''selectable_products'' data pg1
      in pg2)"

definition variants_update_button_success :: "named_envelope \<Rightarrow> page \<Rightarrow> page" where
  "variants_update_button_success data pg =
     (let pg1 = html_key ''#variants'' ''properties'' data pg;
          pg2 = html_key ''#selectable-products'' ''selectable_products'' data pg1
      in pg2)"

definition add_accessories_button_success :: "named_envelope \<Rightarrow> page \<Rightarrow> page" where
  "add_accessories_button_success data pg =
     (let pg1 = html_key ''#accessories-inline'' ''html'' data pg;
          pg2 = jGrowl (msg data) pg1;
          pg3 = on_document align_accessories_buttons pg2;
          pg4 = on_document hide_ajax_loading pg3
      in pg4)"

definition accessories_update_button_success :: "named_envelope \<Rightarrow> page \<Rightarrow> page" where
  "accessories_update_button_success data pg =
     (let pg1 = html_key ''#accessories-inline'' ''html'' data pg;
          pg2 = jGrowl (msg data) pg1;
          pg3 = on_document align_accessories_buttons pg2;
          pg4 = on_document hide_ajax_loading pg3
      in pg4)"

definition add_related_products_button_success :: "named_envelope \<Rightarrow> page \<Rightarrow> page" where
  "add_related_products_button_success data pg =
     (let pg1 = html_key ''#related-products-inline'' ''html'' data pg;
          pg2 = jGrowl (msg data) pg1;
          pg3 = on_document align_related_products_buttons pg2
      in pg3)"

definition remove_related_products_button_success :: "named_envelope \<Rightarrow> page \<Rightarrow> page" where
  "remove_related_products_button_success data pg =
     (let pg1 = html_key ''#related-products-inline'' ''html'' data pg;
          pg2 = jGrowl (msg data) pg1;
          pg3 = on_document align_related_products_buttons pg2
      in pg3)"

definition related_products_update_button_success :: "named_envelope \<Rightarrow> page \<Rightarrow> page" where
  "related_products_update_button_success data pg =
     (let pg1 = html_key ''#related-products-inline'' ''html'' data pg;
          pg2 = jGrowl (msg data) pg1
      in pg2)"

definition seo_save_button_success :: "named_envelope \<Rightarrow> page \<Rightarrow> page" where
  "seo_save_button_success data pg =
     (let pg1 = html_key ''#seo-inline'' ''seo_inline'' data pg;
          pg2 = jGrowl (msg data) pg1
      in pg2)"

definition price_button_success :: "named_envelope \<Rightarrow> page \<Rightarrow> page" where
  "price_button_success data pg =
     (let pg1 = html_key ''#prices'' ''prices'' data pg;
          pg2 = jGrowl (msg data) pg1
      in pg2)"

definition product_stock_button_success :: "named_envelope \<Rightarrow> page \<Rightarrow> page" where
  "product_stock_button_success data pg =
     (let pg1 = html_key ''#stock'' ''html'' data pg;
          pg2 = jGrowl (msg data) pg1
      in pg2)"

definition add_property_button_success :: "named_envelope \<Rightarrow> page \<Rightarrow> page" where
  "add_property_button_success data pg =
     (let pg1 = html_key ''#properties'' ''html'' data pg;
          pg2 = jGrowl (msg data) pg1
      in pg2)"

definition property_group_update_button_success :: "named_envelope \<Rightarrow> page \<Rightarrow> page" where
  "property_group_update_button_success data pg =
     (let pg1 = html_key ''#properties'' ''html'' data pg;
          pg2 = jGrowl (msg data) pg1
      in pg2)"

definition add_products_button_success :: "named_envelope \<Rightarrow> page \<Rightarrow> page" where
  "add_products_button_success data pg =
     (let pg1 = html_key ''#products-inline'' ''products_inline'' data pg;
          pg2 = html_key ''#product-values'' ''product_values_inline'' data pg1;
          pg3 = jGrowl (msg data) pg2
      in pg3)"

definition products_update_button_success :: "named_envelope \<Rightarrow> page \<Rightarrow> page" where
  "products_update_button_success data pg =
     (let pg1 = html_key ''#products-inline'' ''html'' data pg;
          pg2 = jGrowl (msg data) pg1
      in pg2)"

definition update_product_values_button_success :: "named_envelope \<Rightarrow> page \<Rightarrow> page" where
  "update_product_values_button_success data pg =
     (let pg1 = html_key ''#product-values'' ''html'' data pg;
          pg2 = jGrowl (msg data) pg1
      in pg2)"

definition shop_property_add_option_button_success :: "named_envelope \<Rightarrow> page \<Rightarrow> page" where
  "shop_property_add_option_button_success data pg =
     (let pg1 = html_key ''#options'' ''options'' data pg;
          pg2 = jGrowl (msg data) pg1
      in pg2)"

definition shop_property_add_step_button_success :: "named_envelope \<Rightarrow> page \<Rightarrow> page" where
  "shop_property_add_step_button_success data pg =
     (let pg1 = html_key ''#steps'' ''steps'' data pg;
          pg2 = jGrowl (msg data) pg1
      in pg2)"

definition shop_property_save_step_button_success :: "named_envelope \<Rightarrow> page \<Rightarrow> page" where
  "shop_property_save_step_button_success data pg =
     (let pg1 = html_key ''#steps'' ''steps'' data pg;
          pg2 = jGrowl (msg data) pg1
      in pg2)"

definition shop_property_save_step_type_button_success :: "named_envelope \<Rightarrow> page \<Rightarrow> page" where
  "shop_property_save_step_type_button_success data pg =
     (let pg1 = html_key ''#steps'' ''steps'' data pg;
          pg2 = jGrowl (msg data) pg1
      in pg2)"

definition ajax_portlet_save_button_success :: "named_envelope \<Rightarrow> page \<Rightarrow> page" where
  "ajax_portlet_save_button_success data pg =
     (let pg1 = html_key ''#portlets'' ''html'' data pg;
          pg2 = jGrowl (msg data) pg1
      in pg2)"

definition add_topseller_button_success :: "named_envelope \<Rightarrow> page \<Rightarrow> page" where
  "add_topseller_button_success data pg =
     (let pg1 = html_key ''#topseller-inline'' ''html'' data pg;
          pg2 = jGrowl (msg data) pg1
      in pg2)"

definition topseller_update_button_success :: "named_envelope \<Rightarrow> page \<Rightarrow> page" where
  "topseller_update_button_success data pg =
     (let pg1 = html_key ''#topseller-inline'' ''html'' data pg;
          pg2 = jGrowl (msg data) pg1
      in pg2)"

definition add_featured_button_success :: "named_envelope \<Rightarrow> page \<Rightarrow> page" where
  "add_featured_button_success data pg =
     (let pg1 = html_key ''#featured-inline'' ''html'' data pg;
          pg2 = jGrowl (msg data) pg1
      in pg2)"

definition featured_update_button_success :: "named_envelope \<Rightarrow> page \<Rightarrow> page" where
  "featured_update_button_success data pg =
     (let pg1 = html_key ''#featured-inline'' ''html'' data pg;
          pg2 = jGrowl (msg data) pg1
      in pg2)"

definition shop_default_values_button_success :: "named_envelope \<Rightarrow> page \<Rightarrow> page" where
  "shop_default_values_button_success data pg =
     (let pg1 = html_key ''#default-values'' ''html'' data pg;
          pg2 = jGrowl (msg data) pg1
      in pg2)"

text \<open>
  The callbacks above that hand \<^verbatim>\<open>data["message"]\<close> to \<^verbatim>\<open>$.jGrowl\<close>, and the two
  that have no such call.
\<close>

definition message_callbacks :: "(named_envelope \<Rightarrow> page \<Rightarrow> page) list" where
  "message_callbacks =
     [criterion_save_button_success,
      price_criterion_save_button_success,
      category_products_add_button_success,
      category_seo_button_success,
      product_images_update_button_success,
      product_data_save_button_success,
      product_categories_save_button_success,
      add_accessories_button_success,
      accessories_update_button_success,
      add_related_products_button_success,
      remove_related_products_button_success,
      related_products_update_button_success,
      seo_save_button_success,
      price_button_success,
      product_stock_button_success,
      add_property_button_success,
      property_group_update_button_success,
      add_products_button_success,
      products_update_button_success,
      update_product_values_button_success,
      shop_property_add_option_button_success,
      shop_property_add_step_button_success,
      shop_property_save_step_button_success,
      shop_property_save_step_type_button_success,
      ajax_portlet_save_button_success,
      add_topseller_button_success,
      topseller_update_button_success,
      add_featured_button_success,
      featured_update_button_success,
      shop_default_values_button_success]"

definition silent_callbacks :: "(named_envelope \<Rightarrow> page \<Rightarrow> page) list" where
  "silent_callbacks =
     [variants_add_button_success,
      variants_update_button_success]"

text \<open>
  The callback inside \<^verbatim>\<open>update_parent_categories\<close> parses its answer too and reads the
  keys \<^verbatim>\<open>html\<close> and \<^verbatim>\<open>checkbox\<close> only; a message in the answer is not looked at.
\<close>

record category_state_reply = category_state +
  reply_message :: "string option"

definition update_parent_categories_success :: "category_state_reply \<Rightarrow> page \<Rightarrow> page" where
  "update_parent_categories_success data pg =
     pg\<lparr>document := category_state_success (category_state.truncate data) (document pg)\<rparr>"

chapter \<open>Properties\<close>

section \<open>The document operations\<close>

declare string_of_nat.simps [simp del]

lemma matches_height [simp]: "matches s (e\<lparr>height := h\<rparr>) = matches s e"
  by (cases s) auto

lemma matches_val [simp]: "matches s (e\<lparr>val := v\<rparr>) = matches s e"
  by (cases s) auto

lemma matches_checked [simp]: "matches s (e\<lparr>checked := b\<rparr>) = matches s e"
  by (cases s) auto

lemma matches_hidden [simp]: "matches s (e\<lparr>hidden := b\<rparr>) = matches s e"
  by (cases s) auto

declare matches.simps [simp del]

lemma map_elems_comp: "map_elems f (map_elems g d) = map_elems (f \<circ> g) d"
  by (induction d) auto

lemma map_elems_cong: "(\<And>e. f e = g e) \<Longrightarrow> map_elems f d = map_elems g d"
  by (induction d) auto

lemma select_map_elems:
  "(\<And>e. P (f e) = P e) \<Longrightarrow> select P (map_elems f d) = map f (select P d)"
  by (induction d) (auto simp: map_concat comp_def intro!: arg_cong[where f=concat])

lemma select_sound: "e \<in> set (select P d) \<Longrightarrow> P e"
  by (induction d) (auto split: if_splits)

lemma select_empty_each: "select P d = [] \<Longrightarrow> each P f d = d"
  unfolding each_def by (induction d) (auto simp: map_idI)

lemma map_upt_add:
  "map f [0..<a + b] = map f [0..<a] @ map (\<lambda>i. f (a + i)) [0..<b]"
  by (induction b) simp_all

lemma node_at_append:
  "node_at (p @ q) d = (case node_at p d of None \<Rightarrow> None | Some n \<Rightarrow> node_at q n)"
  by (induction p d rule: node_at.induct) auto

lemma update_at_append: "update_at (p @ q) f d = update_at p (update_at q f) d"
  by (induction p f d rule: update_at.induct) auto

lemma update_at_comp: "update_at p f (update_at p g d) = update_at p (f \<circ> g) d"
  by (induction p g d rule: update_at.induct) auto

lemma node_at_update_at:
  "node_at p d = Some n \<Longrightarrow> node_at p (update_at p f d) = Some (f n)"
  by (induction p d rule: node_at.induct) (auto split: if_splits)

lemma ancestors_snoc: "ancestors (p @ [i]) = p # ancestors p"
proof -
  have "prefixes p = butlast (prefixes p) @ [p]"
    by (induction p rule: rev_induct) simp_all
  then have "rev (prefixes p) = p # rev (butlast (prefixes p))"
    by (metis rev.simps(2) rev_rev_ident rev_singleton_conv rev_append append_Cons append_Nil)
  then show ?thesis by (simp add: ancestors_def)
qed

lemma ancestors_strict_prefix: "q \<in> set (ancestors p) \<longleftrightarrow> strict_prefix q p"
proof (induction p rule: rev_induct)
  case Nil
  then show ?case by (simp add: ancestors_def)
next
  case (snoc x xs)
  then show ?case by (auto simp: ancestors_snoc strict_prefix_def)
qed

lemma replace_at_twice: "replace_at p n (replace_at p m d) = replace_at p n d"
  by (simp add: replace_at_def update_at_comp comp_def)

lemma update_at_same: "node_at p d = Some n \<Longrightarrow> f n = n \<Longrightarrow> update_at p f d = d"
  by (induction p d rule: node_at.induct) (auto split: if_splits)

lemma replace_at_self: "node_at p d = Some n \<Longrightarrow> replace_at p n d = d"
  by (simp add: replace_at_def update_at_same)

lemma node_at_replace_at: "node_at p d = Some m \<Longrightarrow> node_at p (replace_at p n d) = Some n"
  by (simp add: replace_at_def node_at_update_at)

lemma node_at_update_at_other:
  "\<not> prefix p q \<Longrightarrow> \<not> prefix q p \<Longrightarrow> node_at q (update_at p f d) = node_at q d"
proof (induction p f d arbitrary: q rule: update_at.induct)
  case (1 f d)
  then show ?case by simp
next
  case (2 i p f s)
  then show ?case by simp
next
  case (3 i p f e ks)
  then obtain j q' where q: "q = j # q'" by (cases q) auto
  show ?case
  proof (cases "i = j")
    case True
    with 3 q show ?thesis by auto
  next
    case False
    with q show ?thesis by auto
  qed
qed

lemma node_at_update_at_above:
  "strict_prefix q p \<Longrightarrow>
     (case node_at q (update_at p f d) of Some (Elem e ks) \<Rightarrow> Q e | _ \<Rightarrow> R)
       = (case node_at q d of Some (Elem e ks) \<Rightarrow> Q e | _ \<Rightarrow> R)"
proof (induction p f d arbitrary: q rule: update_at.induct)
  case (1 f d)
  then show ?case by simp
next
  case (2 i p f s)
  then show ?case by (cases q) auto
next
  case (3 i p f e ks)
  show ?case
  proof (cases q)
    case Nil
    then show ?thesis by simp
  next
    case (Cons j q')
    with 3 show ?thesis by (auto simp: strict_prefix_def)
  qed
qed

lemma select_each:
  assumes "\<And>e. P (f e) = P e"
  shows "select P (each P f d) = map f (select P d)"
proof -
  have "select P (each P f d) = map (\<lambda>e. if P e then f e else e) (select P d)"
    unfolding each_def by (rule select_map_elems) (simp add: assms)
  also have "\<dots> = map f (select P d)"
    by (rule map_cong) (auto dest: select_sound)
  finally show ?thesis .
qed

lemma node_at_update_at_eq: "node_at p (update_at p f d) = map_option f (node_at p d)"
  by (induction p d rule: node_at.induct) auto

lemma distinct_ancestors: "distinct (ancestors p)"
  by (simp add: ancestors_def distinct_butlast distinct_prefixes)

lemma node_at_update_kids_prefix:
  assumes "prefix q p"
  shows "(case node_at q (update_at p (map_kids f) d) of Some (Elem e ks) \<Rightarrow> Q e | _ \<Rightarrow> R)
           = (case node_at q d of Some (Elem e ks) \<Rightarrow> Q e | _ \<Rightarrow> R)"
proof (cases "q = p")
  case True
  then show ?thesis
    by (auto simp: node_at_update_at_eq map_kids_def split: option.splits node.splits)
next
  case False
  with assms have "strict_prefix q p" by (simp add: strict_prefix_def)
  then show ?thesis by (rule node_at_update_at_above)
qed

lemma ancestors_prefix_butlast: "q \<in> set (ancestors p) \<Longrightarrow> prefix q (butlast p)"
  by (cases p rule: rev_cases) (auto simp: ancestors_strict_prefix strict_prefix_def ancestors_def)

section \<open>Equalizing paired columns\<close>

lemma select_height_set:
  "select (matches s) (height_set s' h d) =
     map (\<lambda>e. if matches s' e then e\<lparr>height := h\<rparr> else e) (select (matches s) d)"
  unfolding height_set_def each_def by (rule select_map_elems) auto

lemma height_get_height_set:
  "height_get s (height_set s' h d) =
     (case select (matches s) d of [] \<Rightarrow> None
      | e # _ \<Rightarrow> Some (if matches s' e then h else height e))"
  by (auto simp: height_get_def select_height_set split: list.splits)

lemma height_get_same:
  "height_get s (height_set s h d) = (case height_get s d of None \<Rightarrow> None | Some _ \<Rightarrow> Some h)"
proof (cases "select (matches s) d")
  case Nil
  then show ?thesis unfolding height_get_height_set by (simp add: height_get_def)
next
  case (Cons e es)
  then have "matches s e" using select_sound[of e "matches s" d] by simp
  with Cons show ?thesis unfolding height_get_height_set by (simp add: height_get_def)
qed

lemma height_set_twice:
  "height_set s h (height_set s' h (height_set s h (height_set s' h d)))
     = height_set s h (height_set s' h d)"
  unfolding height_set_def each_def map_elems_comp
  by (rule map_elems_cong) auto

lemma height_set_none: "height_get s d = None \<Longrightarrow> height_set s h d = d"
proof -
  assume "height_get s d = None"
  then have "select (matches s) d = []" by (auto simp: height_get_def split: list.splits)
  then show ?thesis unfolding height_set_def by (rule select_empty_each)
qed

lemma height_get_exists:
  "(height_get s (height_set s' h d) = None) = (height_get s d = None)"
  unfolding height_get_height_set by (auto simp: height_get_def split: list.splits)

lemma align_height_r:
  "height_get r (height_set r h (height_set l h d)) =
     (case height_get r d of None \<Rightarrow> None | Some _ \<Rightarrow> Some h)"
  unfolding height_get_same using height_get_exists[of r l h d]
  by (cases "height_get r (height_set l h d)"; cases "height_get r d") auto

lemma align_height_l:
  "height_get l (height_set r h (height_set l h d)) =
     (case height_get l d of None \<Rightarrow> None | Some _ \<Rightarrow> Some h)"
proof (cases "select (matches l) d")
  case Nil
  then show ?thesis
    unfolding height_get_height_set select_height_set by (simp add: height_get_def)
next
  case (Cons e es)
  then have "matches l e" using select_sound[of e "matches l" d] by simp
  with Cons show ?thesis
    unfolding height_get_height_set select_height_set by (simp add: height_get_def)
qed

lemma align_all_heights:
  assumes "e \<in> set (select (matches l) (height_set r h (height_set l h d)))
             \<union> set (select (matches r) (height_set r h (height_set l h d)))"
  shows "height e = h"
  using assms select_sound[of _ "matches l" d] select_sound[of _ "matches r" d]
  unfolding select_height_set by (auto split: if_splits)

lemma align_twice:
  assumes h: "h = Math_max (height_get l d) (height_get r d)"
    and d': "d' = height_set r h (height_set l h d)"
    and h': "h' = Math_max (height_get l d') (height_get r d')"
  shows "height_set r h' (height_set l h' d') = d'"
proof (cases "height_get l d = None \<and> height_get r d = None")
  case True
  then have "d' = d" by (simp add: d' height_set_none)
  with True show ?thesis by (simp add: height_set_none)
next
  case False
  have "h' = h"
    using False unfolding h' d' align_height_l align_height_r
    by (auto simp: h Math_max_def split: option.splits)
  then show ?thesis unfolding d' by (simp add: height_set_twice)
qed

lemma align_buttons_idem: "align_buttons i (align_buttons i d) = align_buttons i d"
  using align_twice[OF refl refl refl, of "i @ ''-right''" "i @ ''-left''" d]
  by (simp add: align_buttons_def Let_def)

lemma align_fixed_columns_eq:
  "align_related_products_buttons d = align_buttons ''#related-products'' d"
  "align_accessories_buttons d = align_buttons ''#accessories'' d"
  "align_topsellers_buttons d = align_buttons ''#topseller'' d"
  by (simp_all add: align_related_products_buttons_def align_accessories_buttons_def
      align_topsellers_buttons_def align_buttons_def)

text \<open>
  Claim C5.  For a pair of columns \<open>ident-left\<close> and \<open>ident-right\<close> whose heights
  before the call are \<open>hl\<close> and \<open>hr\<close>, \<^const>\<open>align_buttons\<close> leaves both columns
  (every element either selector matches) at height \<open>max hl hr\<close>, and a second call
  changes nothing.  The functions for the related products, the accessories and the
  topsellers are the instances for \<^verbatim>\<open>#related-products\<close>, \<^verbatim>\<open>#accessories\<close> and
  \<^verbatim>\<open>#topseller\<close>.
\<close>

theorem align_buttons_equalizes:
  assumes "height_get (ident @ ''-left'') d = Some hl"
    and "height_get (ident @ ''-right'') d = Some hr"
  shows "height_get (ident @ ''-left'') (align_buttons ident d) = Some (max hl hr)
       \<and> height_get (ident @ ''-right'') (align_buttons ident d) = Some (max hl hr)
       \<and> (\<forall>e \<in> set (select (matches (ident @ ''-left'')) (align_buttons ident d))
                \<union> set (select (matches (ident @ ''-right'')) (align_buttons ident d)).
             height e = max hl hr)
       \<and> align_buttons ident (align_buttons ident d) = align_buttons ident d
       \<and> align_related_products_buttons d = align_buttons ''#related-products'' d
       \<and> align_accessories_buttons d = align_buttons ''#accessories'' d
       \<and> align_topsellers_buttons d = align_buttons ''#topseller'' d"
proof -
  have h: "Math_max (height_get (ident @ ''-left'') d) (height_get (ident @ ''-right'') d)
             = max hl hr"
    using assms by (simp add: Math_max_def)
  have ab: "align_buttons ident d
              = height_set (ident @ ''-right'') (max hl hr)
                  (height_set (ident @ ''-left'') (max hl hr) d)"
    using h by (simp add: align_buttons_def Let_def)
  have "height_get (ident @ ''-left'') (align_buttons ident d) = Some (max hl hr)"
    unfolding ab align_height_l using assms by simp
  moreover have "height_get (ident @ ''-right'') (align_buttons ident d) = Some (max hl hr)"
    unfolding ab align_height_r using assms by simp
  moreover have "\<forall>e \<in> set (select (matches (ident @ ''-left'')) (align_buttons ident d))
                \<union> set (select (matches (ident @ ''-right'')) (align_buttons ident d)).
             height e = max hl hr"
    unfolding ab using align_all_heights by blast
  ultimately show ?thesis
    using align_buttons_idem align_fixed_columns_eq by blast
qed

theorem align_buttons_equalizes_witness:
  "height_get (''#featured'' @ ''-left'')
     (Elem (element ''div'' [] [])
        [Elem ((element ''div'' [] [(''id'', ''featured-left'')])\<lparr>height := 30\<rparr>) [],
         Elem ((element ''div'' [] [(''id'', ''featured-right'')])\<lparr>height := 50\<rparr>) []]) = Some 30
   \<and> height_get (''#featured'' @ ''-right'')
     (Elem (element ''div'' [] [])
        [Elem ((element ''div'' [] [(''id'', ''featured-left'')])\<lparr>height := 30\<rparr>) [],
         Elem ((element ''div'' [] [(''id'', ''featured-right'')])\<lparr>height := 50\<rparr>) []]) = Some 50
   \<and> height_get (''#featured'' @ ''-left'')
     (align_buttons ''#featured''
       (Elem (element ''div'' [] [])
        [Elem ((element ''div'' [] [(''id'', ''featured-left'')])\<lparr>height := 30\<rparr>) [],
         Elem ((element ''div'' [] [(''id'', ''featured-right'')])\<lparr>height := 50\<rparr>) []])) = Some 50"
proof -
  let ?d = "Elem (element ''div'' [] [])
        [Elem ((element ''div'' [] [(''id'', ''featured-left'')])\<lparr>height := 30\<rparr>) [],
         Elem ((element ''div'' [] [(''id'', ''featured-right'')])\<lparr>height := 50\<rparr>) []]"
  have l: "height_get (''#featured'' @ ''-left'') ?d = Some 30"
    by (simp add: height_get_def element_def matches.simps)
  have r: "height_get (''#featured'' @ ''-right'') ?d = Some 50"
    by (simp add: height_get_def element_def matches.simps)
  from align_buttons_equalizes[OF l r] l r show ?thesis by simp
qed

section \<open>Criterion positions\<close>

lemma each_position_vals:
  "map val (select (matches ''.position'') (fst (each_position c d)))
     = map (\<lambda>i. string_of_nat (c + 10 * (i + 1)))
         [0..<length (select (matches ''.position'') d)]
   \<and> snd (each_position c d) = c + 10 * length (select (matches ''.position'') d)"
  "map val (concat (map (select (matches ''.position'')) (fst (each_position_list c ks))))
     = map (\<lambda>i. string_of_nat (c + 10 * (i + 1)))
         [0..<length (concat (map (select (matches ''.position'')) ks))]
   \<and> snd (each_position_list c ks)
       = c + 10 * length (concat (map (select (matches ''.position'')) ks))"
proof (induction c d and c ks rule: each_position_each_position_list.induct)
  case (1 position s)
  then show ?case by simp
next
  case (2 position e ks)
  let ?n = "length (concat (map (select (matches ''.position'')) ks))"
  show ?case
  proof (cases "matches ''.position'' e")
    case True
    obtain ks' c' where r: "each_position_list (position + 10) ks = (ks', c')"
      by (cases "each_position_list (position + 10) ks") auto
    from 2(1)[OF True refl] r
    have ih: "map val (concat (map (select (matches ''.position'')) ks'))
                = map (\<lambda>i. string_of_nat (position + 10 + 10 * (i + 1))) [0..<?n]"
      and c': "c' = position + 10 + 10 * ?n"
      by simp_all
    have "map (\<lambda>i. string_of_nat (position + 10 * (i + 1))) [0..<Suc ?n]
            = string_of_nat (position + 10)
                # map val (concat (map (select (matches ''.position'')) ks'))"
      unfolding ih map_upt_Suc by (simp add: algebra_simps)
    with True r c' show ?thesis
      by (simp add: Let_def del: upt_Suc)
  next
    case False
    with 2(2)[OF False] show ?thesis
      by (simp add: split_def Let_def)
  qed
next
  case (3 position)
  then show ?case by simp
next
  case (4 position k ks)
  let ?a = "length (select (matches ''.position'') k)"
  let ?b = "length (concat (map (select (matches ''.position'')) ks))"
  obtain k' c' where r1: "each_position position k = (k', c')"
    by (cases "each_position position k") auto
  obtain ks' c'' where r2: "each_position_list c' ks = (ks', c'')"
    by (cases "each_position_list c' ks") auto
  from 4(1) r1
  have ih1: "map val (select (matches ''.position'') k')
               = map (\<lambda>i. string_of_nat (position + 10 * (i + 1))) [0..<?a]"
    and c': "c' = position + 10 * ?a"
    by simp_all
  from 4(2)[OF r1[symmetric] refl] r2
  have ih2: "map val (concat (map (select (matches ''.position'')) ks'))
               = map (\<lambda>i. string_of_nat (c' + 10 * (i + 1))) [0..<?b]"
    and c'': "c'' = c' + 10 * ?b"
    by simp_all
  have "map (\<lambda>i. string_of_nat (position + 10 * (i + 1))) [0..<?a + ?b]
        = map val (select (matches ''.position'') k')
            @ map val (concat (map (select (matches ''.position'')) ks'))"
    unfolding ih1 ih2 c' map_upt_add by (simp add: algebra_simps)
  with r1 r2 c' c'' show ?case
    by (simp add: Let_def del: upt_Suc)
qed

text \<open>
  Claim C9.  After \<^const>\<open>update_positions\<close> the \<open>i\<close>-th element of class
  \<^verbatim>\<open>position\<close> in document order, counted from 0, holds the decimal string of
  \<open>10 * (i + 1)\<close>, whatever it held before.  The callbacks that add a criterion or change
  a criterion's type end with that call, so they leave the positions of the document they
  have built in that state.
\<close>

theorem update_positions_sequence:
  "map val (select (matches ''.position'') (update_positions d))
     = map (\<lambda>i. string_of_nat (10 * (i + 1)))
         [0..<length (select (matches ''.position'') d)]
   \<and> length (select (matches ''.position'') (update_positions d))
       = length (select (matches ''.position'') d)
   \<and> map val (select (matches ''.position'') (criterion_add_first_button_success data d))
       = map (\<lambda>i. string_of_nat (10 * (i + 1)))
           [0..<length (select (matches ''.position'') (criterion_add_first_button_success data d))]
   \<and> map val (select (matches ''.position'') (criterion_add_button_success p data d))
       = map (\<lambda>i. string_of_nat (10 * (i + 1)))
           [0..<length (select (matches ''.position'') (criterion_add_button_success p data d))]
   \<and> map val (select (matches ''.position'') (criterion_type_change_success p data d))
       = map (\<lambda>i. string_of_nat (10 * (i + 1)))
           [0..<length (select (matches ''.position'') (criterion_type_change_success p data d))]"
proof -
  have a: "map val (select (matches ''.position'') (update_positions d'))
     = map (\<lambda>i. string_of_nat (10 * (i + 1)))
         [0..<length (select (matches ''.position'') d')]" for d'
    using each_position_vals(1)[of 0 d'] by (simp add: update_positions_def)
  have len: "length (select (matches ''.position'') (update_positions d'))
          = length (select (matches ''.position'') d')" for d'
    using arg_cong[OF a[of d'], of length] by simp
  have b: "map val (select (matches ''.position'') (update_positions d'))
     = map (\<lambda>i. string_of_nat (10 * (i + 1)))
         [0..<length (select (matches ''.position'') (update_positions d'))]" for d'
    unfolding len by (rule a)
  show ?thesis
    unfolding criterion_add_first_button_success_def criterion_add_button_success_def
      criterion_type_change_success_def
    using a[of d] len[of d] b by blast
qed

theorem update_positions_sequence_witness:
  "map val (select (matches ''.position'')
     (update_positions
        (Elem (element ''table'' [''criteria''] [])
           [Elem ((element ''input'' [''position''] [])\<lparr>val := ''70''\<rparr>) [],
            Text ''x'',
            Elem (element ''tr'' [] [])
              [Elem ((element ''input'' [''position''] [])\<lparr>val := ''5''\<rparr>) []],
            Elem ((element ''input'' [''position''] [])\<lparr>val := ''5''\<rparr>) []])))
   = [''10'', ''20'', ''30'']"
proof -
  let ?d = "Elem (element ''table'' [''criteria''] [])
           [Elem ((element ''input'' [''position''] [])\<lparr>val := ''70''\<rparr>) [],
            Text ''x'',
            Elem (element ''tr'' [] [])
              [Elem ((element ''input'' [''position''] [])\<lparr>val := ''5''\<rparr>) []],
            Elem ((element ''input'' [''position''] [])\<lparr>val := ''5''\<rparr>) []]"
  have n: "length (select (matches ''.position'') ?d) = 3"
    by (simp add: element_def matches.simps)
  have s: "map (\<lambda>i. string_of_nat (10 * (i + 1))) [0..<3] = [''10'', ''20'', ''30'']"
    by code_simp
  from update_positions_sequence[of ?d "[]"] show ?thesis
    unfolding n s by simp
qed

section \<open>Patching the document from an envelope\<close>

lemma apply_html_append: "apply_html (ps @ qs) d = apply_html qs (apply_html ps d)"
  by (induction ps arbitrary: d) auto

lemma apply_html_Text [simp]: "apply_html ps (Text s) = Text s"
  by (induction ps) auto

lemma apply_html_unmatched:
  "\<forall>(sel, m) \<in> set ps. \<not> matches sel e \<Longrightarrow>
     apply_html ps (Elem e ks) = Elem e (map (apply_html ps) ks)"
proof (induction ps arbitrary: ks)
  case Nil
  then show ?case by (simp add: map_idI)
next
  case (Cons p ps)
  obtain sel m where p: "p = (sel, m)" by (cases p)
  with Cons.prems have "\<not> matches sel e" and "\<forall>(sel, m) \<in> set ps. \<not> matches sel e"
    by auto
  with Cons.IH[of "map (set_html (matches sel) m) ks"] p show ?case
    by simp
qed

lemma apply_html_matched:
  assumes "matches sel e" and "\<forall>(sel', m') \<in> set after. \<not> matches sel' e"
  shows "apply_html (before @ (sel, m) # after) (Elem e ks) = Elem e (map (apply_html after) m)"
proof (induction before arbitrary: ks)
  case Nil
  with assms show ?case by (simp add: apply_html_unmatched)
next
  case (Cons p before)
  obtain sel' m' where p: "p = (sel', m')" by (cases p)
  show ?case
  proof (cases "matches sel' e")
    case True
    with p Cons[of m'] show ?thesis by simp
  next
    case False
    with p Cons[of "map (set_html (matches sel') m') ks"] show ?thesis by simp
  qed
qed

text \<open>
  Claim C6.  The pairs of the \<^verbatim>\<open>html\<close> list are applied in list order
  (\<^const>\<open>apply_html\<close> of a list followed by a pair is the pair's replacement after the
  list's).  An element that some selector of the list names ends with the markup of the
  last pair naming it as its contents, patched by the pairs after that one.  An element no
  selector of the list names keeps its properties and its children, which are patched in
  turn; text is never touched.  The \<^verbatim>\<open>.ajax-link\<close> and
  \<^verbatim>\<open>#product-name-filter\<close> callbacks change the document by exactly this step.
\<close>

theorem apply_html_in_list_order:
  "apply_html (ps @ [(sel, m)]) d = set_html (matches sel) m (apply_html ps d)
   \<and> (matches sel e \<and> (\<forall>(sel', m') \<in> set after. \<not> matches sel' e) \<longrightarrow>
        apply_html (before @ (sel, m) # after) (Elem e ks) = Elem e (map (apply_html after) m))
   \<and> ((\<forall>(sel', m') \<in> set ps. \<not> matches sel' e) \<longrightarrow>
        apply_html ps (Elem e ks) = Elem e (map (apply_html ps) ks))
   \<and> apply_html ps (Text s) = Text s
   \<and> document (ajax_link_success data pg) = apply_html (html data) (document pg)
   \<and> document (product_name_filter_success data pg) = apply_html (html data) (document pg)"
  using apply_html_matched[of sel e after before m ks] apply_html_unmatched[of ps e ks]
  by (simp add: apply_html_append ajax_link_success_def product_name_filter_success_def
      jGrowl_def Let_def)

theorem apply_html_in_list_order_witness:
  "apply_html [(''#a'', [Text ''one'']), (''#b'', [Text ''two'']), (''#a'', [Text ''three''])]
     (Elem (element ''body'' [] [])
        [Elem (element ''div'' [] [(''id'', ''a'')]) [Text ''old''],
         Elem (element ''div'' [] [(''id'', ''b'')]) [],
         Elem (element ''div'' [] [(''id'', ''c'')]) [Text ''kept'']])
   = Elem (element ''body'' [] [])
        [Elem (element ''div'' [] [(''id'', ''a'')]) [Text ''three''],
         Elem (element ''div'' [] [(''id'', ''b'')]) [Text ''two''],
         Elem (element ''div'' [] [(''id'', ''c'')]) [Text ''kept'']]"
proof -
  let ?ps = "[(''#a'', [Text ''one'']), (''#b'', [Text ''two''])]"
  let ?a = "element ''div'' [] [(''id'', ''a'')]"
  let ?b = "element ''div'' [] [(''id'', ''b'')]"
  let ?c = "element ''div'' [] [(''id'', ''c'')]"
  let ?body = "element ''body'' [] []"
  have 1: "matches ''#a'' ?a \<and> (\<forall>(sel', m') \<in> set []. \<not> matches sel' ?a)"
    by (simp add: matches.simps element_def)
  have 2: "\<forall>(sel', m') \<in> set ?ps. \<not> matches sel' ?c"
    by (simp add: matches.simps element_def)
  have 3: "\<forall>(sel', m') \<in> set ?ps. \<not> matches sel' ?body"
    by (simp add: matches.simps element_def)
  note t = apply_html_in_list_order[of ?ps "''#a''" "[Text ''three'']"]
  from t[of _ ?c "[]" "[]" "[Text ''kept'']"] 2
  have c: "apply_html ?ps (Elem ?c [Text ''kept'']) = Elem ?c [Text ''kept'']"
    by simp
  have a: "apply_html ?ps (Elem ?a [Text ''old'']) = Elem ?a [Text ''one'']"
    by (simp add: matches.simps element_def)
  have b: "apply_html ?ps (Elem ?b []) = Elem ?b [Text ''two'']"
    by (simp add: matches.simps element_def)
  from t[of _ ?body "[]" "[]" "[Elem ?a [Text ''old''], Elem ?b [], Elem ?c [Text ''kept'']]"] 3
  have "apply_html ?ps (Elem ?body [Elem ?a [Text ''old''], Elem ?b [], Elem ?c [Text ''kept'']])
          = Elem ?body [Elem ?a [Text ''one''], Elem ?b [Text ''two''], Elem ?c [Text ''kept'']]"
    using a b c by simp
  with t[of "Elem ?body [Elem ?a [Text ''old''], Elem ?b [], Elem ?c [Text ''kept'']]"]
  show ?thesis
    by (simp add: matches.simps element_def)
qed

section \<open>Notifications\<close>

lemma ajax_save_button_without_message:
  "notifications (ajax_save_button_success \<lparr>html = [], message = None\<rparr> pg)
     = notifications pg @ [None]"
  by (simp add: ajax_save_button_success_def jGrowl_def)

lemma notifications_jGrowl [simp]:
  "notifications (jGrowl m pg) = notifications pg @ [m]"
  by (simp add: jGrowl_def)

lemma notifications_html_key [simp]:
  "notifications (html_key sel key data pg) = notifications pg"
  by (simp add: html_key_def split: option.splits)

lemma notifications_on_document [simp]:
  "notifications (on_document f pg) = notifications pg"
  by (simp add: on_document_def)

lemma message_callbacks_notify:
  "H \<in> set message_callbacks \<Longrightarrow> notifications (H data pg) = notifications pg @ [msg data]"
  unfolding message_callbacks_def
  by (auto simp: Let_def
      criterion_save_button_success_def
      price_criterion_save_button_success_def
      category_products_add_button_success_def
      category_seo_button_success_def
      product_images_update_button_success_def
      product_data_save_button_success_def
      product_categories_save_button_success_def
      add_accessories_button_success_def
      accessories_update_button_success_def
      add_related_products_button_success_def
      remove_related_products_button_success_def
      related_products_update_button_success_def
      seo_save_button_success_def
      price_button_success_def
      product_stock_button_success_def
      add_property_button_success_def
      property_group_update_button_success_def
      add_products_button_success_def
      products_update_button_success_def
      update_product_values_button_success_def
      shop_property_add_option_button_success_def
      shop_property_add_step_button_success_def
      shop_property_save_step_button_success_def
      shop_property_save_step_type_button_success_def
      ajax_portlet_save_button_success_def
      add_topseller_button_success_def
      topseller_update_button_success_def
      add_featured_button_success_def
      featured_update_button_success_def
      shop_default_values_button_success_def)

lemma silent_callbacks_quiet:
  "H \<in> set silent_callbacks \<Longrightarrow> notifications (H data pg) = notifications pg"
  unfolding silent_callbacks_def
  by (auto simp: Let_def variants_add_button_success_def variants_update_button_success_def)

text \<open>
  Claim C1, as stated, fails in both directions.  The \<^verbatim>\<open>.category-ajax-link\<close> callback
  parses an envelope and never shows a notification, also when the envelope carries a
  message.  The \<^verbatim>\<open>.category-products-remove-button\<close> callback does not read a message
  from the response at all: given plain markup it still shows a notification, with a text
  of its own.
\<close>

theorem notification_does_not_follow_message:
  "notifications
     (category_ajax_link_success \<lparr>html = [], message = Some ''Loaded''\<rparr>
        \<lparr>document = Text [], notifications = []\<rparr>)
     = []
   \<and> notifications
     (category_products_remove_button_success [Text ''no products'']
        \<lparr>document = Elem (element ''div'' [] [(''id'', ''products-inline'')]) [],
         notifications = []\<rparr>)
     = [Some ''Produkte wurden von Kategorie entfernt.'']"
  by (simp add: category_ajax_link_success_def category_products_remove_button_success_def
      jGrowl_def)

text \<open>
  Claim C1, amended.  Every callback that hands \<^verbatim>\<open>data["message"]\<close> to
  \<^verbatim>\<open>$.jGrowl\<close> shows exactly one notification, with that text, on a response whose
  message is a non-empty string: the four callbacks that patch from an \<^verbatim>\<open>html\<close> list
  (\<^verbatim>\<open>#product-name-filter\<close>, \<^verbatim>\<open>.ajax-save-button\<close>, \<^verbatim>\<open>.ajax-save-button-2\<close>,
  \<^verbatim>\<open>.ajax-link\<close>) and the thirty of \<^const>\<open>message_callbacks\<close>.  A response with no
  message, or an empty one, makes the three callbacks that test the message
  (\<^verbatim>\<open>#product-name-filter\<close>, \<^verbatim>\<open>.ajax-save-button-2\<close>, \<^verbatim>\<open>.ajax-link\<close>) show none.
  Four callbacks parse an envelope and never show a notification, whatever it holds:
  \<^verbatim>\<open>.variants-add-button\<close>, \<^verbatim>\<open>.variants-update-button\<close>, the one inside
  \<^verbatim>\<open>update_parent_categories\<close> and \<^verbatim>\<open>.category-ajax-link\<close>.  The
  \<^verbatim>\<open>.category-products-remove-button\<close> callback shows exactly one notification with its
  own fixed text, whatever the response.
\<close>

theorem notifications_of_envelope_handlers:
  "(message data = Some m \<and> m \<noteq> [] \<longrightarrow>
      notifications (product_name_filter_success data pg) = notifications pg @ [Some m]
    \<and> notifications (ajax_save_button_success data pg) = notifications pg @ [Some m]
    \<and> notifications (ajax_save_button_2_success data pg) = notifications pg @ [Some m]
    \<and> notifications (ajax_link_success data pg) = notifications pg @ [Some m])
   \<and> (message data = None \<or> message data = Some [] \<longrightarrow>
      notifications (product_name_filter_success data pg) = notifications pg
    \<and> notifications (ajax_save_button_2_success data pg) = notifications pg
    \<and> notifications (ajax_link_success data pg) = notifications pg)
   \<and> (\<forall>H \<in> set message_callbacks.
        msg named = Some m \<longrightarrow> notifications (H named pg) = notifications pg @ [Some m])
   \<and> length message_callbacks = 30
   \<and> (\<forall>H \<in> set silent_callbacks. notifications (H named pg) = notifications pg)
   \<and> silent_callbacks = [variants_add_button_success, variants_update_button_success]
   \<and> notifications (update_parent_categories_success reply pg) = notifications pg
   \<and> notifications (category_ajax_link_success data pg) = notifications pg
   \<and> notifications (category_products_remove_button_success markup pg)
       = notifications pg @ [Some ''Produkte wurden von Kategorie entfernt.'']"
proof -
  have a: "(message data = Some m \<and> m \<noteq> [] \<longrightarrow>
      notifications (product_name_filter_success data pg) = notifications pg @ [Some m]
    \<and> notifications (ajax_save_button_success data pg) = notifications pg @ [Some m]
    \<and> notifications (ajax_save_button_2_success data pg) = notifications pg @ [Some m]
    \<and> notifications (ajax_link_success data pg) = notifications pg @ [Some m])
   \<and> (message data = None \<or> message data = Some [] \<longrightarrow>
      notifications (product_name_filter_success data pg) = notifications pg
    \<and> notifications (ajax_save_button_2_success data pg) = notifications pg
    \<and> notifications (ajax_link_success data pg) = notifications pg)"
    by (auto simp: product_name_filter_success_def ajax_save_button_success_def
        ajax_save_button_2_success_def ajax_link_success_def truthy_def Let_def)
  have b: "\<forall>H \<in> set message_callbacks.
        msg named = Some m \<longrightarrow> notifications (H named pg) = notifications pg @ [Some m]"
    by (simp add: message_callbacks_notify)
  have c: "\<forall>H \<in> set silent_callbacks. notifications (H named pg) = notifications pg"
    by (simp add: silent_callbacks_quiet)
  have d: "length message_callbacks = 30"
    by (simp add: message_callbacks_def)
  have e: "silent_callbacks = [variants_add_button_success, variants_update_button_success]"
    by (simp add: silent_callbacks_def)
  have f: "notifications (update_parent_categories_success reply pg) = notifications pg"
    "notifications (category_ajax_link_success data pg) = notifications pg"
    "notifications (category_products_remove_button_success markup pg)
       = notifications pg @ [Some ''Produkte wurden von Kategorie entfernt.'']"
    by (simp_all add: update_parent_categories_success_def category_ajax_link_success_def
        category_products_remove_button_success_def)
  from a b c d e f show ?thesis
    by blast
qed

theorem notifications_of_envelope_handlers_witness:
  "notifications (ajax_save_button_success \<lparr>html = [], message = Some ''Saved''\<rparr>
      \<lparr>document = Text [], notifications = []\<rparr>) = [Some ''Saved'']
   \<and> notifications (ajax_link_success \<lparr>html = [], message = Some ''Saved''\<rparr>
      \<lparr>document = Text [], notifications = []\<rparr>) = [Some ''Saved'']
   \<and> notifications (criterion_save_button_success
        \<lparr>fragments = (\<lambda>k. None), msg = Some ''Saved''\<rparr>
      \<lparr>document = Text [], notifications = []\<rparr>) = [Some ''Saved'']"
proof -
  note t = notifications_of_envelope_handlers[where data = "\<lparr>html = [], message = Some ''Saved''\<rparr>"
      and m = "''Saved''" and pg = "\<lparr>document = Text [], notifications = []\<rparr>"
      and named = "\<lparr>fragments = (\<lambda>k. None), msg = Some ''Saved''\<rparr>"]
  have h: "criterion_save_button_success \<in> set message_callbacks"
    by (simp add: message_callbacks_def)
  have 1: "notifications (ajax_save_button_success \<lparr>html = [], message = Some ''Saved''\<rparr>
      \<lparr>document = Text [], notifications = []\<rparr>) = [Some ''Saved'']"
    and 2: "notifications (ajax_link_success \<lparr>html = [], message = Some ''Saved''\<rparr>
      \<lparr>document = Text [], notifications = []\<rparr>) = [Some ''Saved'']"
    using t[THEN conjunct1] by simp_all
  have 3: "notifications (criterion_save_button_success
        \<lparr>fragments = (\<lambda>k. None), msg = Some ''Saved''\<rparr>
      \<lparr>document = Text [], notifications = []\<rparr>) = [Some ''Saved'']"
    using t[THEN conjunct2, THEN conjunct2, THEN conjunct1, THEN bspec, OF h] by simp
  from 1 2 3 show ?thesis by simp
qed

section \<open>Remembered interface state\<close>

lemma digit_char_in: "k < 10 \<Longrightarrow> digit_char k \<in> set ''0123456789''"
  unfolding digit_char_def by (rule nth_mem) simp

lemma digit_value_digit_char: "k < 10 \<Longrightarrow> digit_value 10 (digit_char k) = Some k"
proof -
  assume "k < 10"
  then consider "k = 0" | "k = 1" | "k = 2" | "k = 3" | "k = 4"
    | "k = 5" | "k = 6" | "k = 7" | "k = 8" | "k = 9"
    by atomize_elim arith
  then show ?thesis
    by cases (simp_all add: digit_value_def digit_char_def)
qed

lemma string_of_nat_digits:
  "string_of_nat n \<noteq> [] \<and> set (string_of_nat n) \<subseteq> set ''0123456789''"
proof (induction n rule: string_of_nat.induct)
  case (1 n)
  show ?case
  proof (cases "n < 10")
    case True
    then show ?thesis
      using digit_char_in[of n] by (subst (1 2) string_of_nat.simps) simp
  next
    case False
    then show ?thesis
      using 1 digit_char_in[of "n mod 10"] by (subst (1 2) string_of_nat.simps) simp
  qed
qed

lemma parse_digits_string_of_nat:
  "parse_digits 10 (string_of_nat n @ s) None = parse_digits 10 s (Some n)"
proof (induction n arbitrary: s rule: string_of_nat.induct)
  case (1 n)
  show ?case
  proof (cases "n < 10")
    case True
    then show ?thesis
      by (subst string_of_nat.simps) (simp add: digit_value_digit_char)
  next
    case False
    then have "parse_digits 10 (string_of_nat n @ s) None
                 = parse_digits 10 (string_of_nat (n div 10) @ digit_char (n mod 10) # s) None"
      by (subst string_of_nat.simps) simp
    also have "\<dots> = parse_digits 10 (digit_char (n mod 10) # s) (Some (n div 10))"
      using 1[OF False] by simp
    also have "\<dots> = parse_digits 10 s (Some n)"
      by (simp add: digit_value_digit_char)
    finally show ?thesis .
  qed
qed

lemma parseInt_string_of_nat: "parseInt (string_of_nat n) = Some (int n)"
proof -
  let ?s = "string_of_nat n"
  from string_of_nat_digits[of n] obtain c cs where s: "?s = c # cs"
    and digits: "set ?s \<subseteq> set ''0123456789''"
    by (cases ?s) auto
  have c: "c \<in> set ''0123456789''" using s digits by auto
  then have nospace: "\<not> is_space c" by (auto simp: is_space_def)
  have nosign: "c \<noteq> CHR ''-''" "c \<noteq> CHR ''+''" using c by auto
  have nohex: "take 2 ?s \<noteq> ''0x''" "take 2 ?s \<noteq> ''0X''"
  proof -
    have "set (take 2 ?s) \<subseteq> set ''0123456789''"
      using digits set_take_subset[of 2 ?s] by blast
    then show "take 2 ?s \<noteq> ''0x''" "take 2 ?s \<noteq> ''0X''" by auto
  qed
  have "parse_digits 10 ?s None = Some n"
    using parse_digits_string_of_nat[of n "[]"] by simp
  moreover have "dropWhile is_space ?s = ?s"
    using s nospace by simp
  moreover have "take 1 ?s \<noteq> ''-''" "take 1 ?s \<noteq> ''+''"
    using s nosign by simp_all
  ultimately show ?thesis
    using nohex unfolding parseInt_def by (simp add: Let_def)
qed

lemma property_edit_fields_shown:
  "e \<in> set (select (matches ''.property-edit-field'')
              (each (matches ''.property-edit-field'') (\<lambda>e. e\<lparr>hidden := False\<rparr>) d))
     \<Longrightarrow> \<not> hidden e"
proof -
  have "select (matches ''.property-edit-field'')
          (each (matches ''.property-edit-field'') (\<lambda>e. e\<lparr>hidden := False\<rparr>) d)
        = map (\<lambda>e. if matches ''.property-edit-field'' e then e\<lparr>hidden := False\<rparr> else e)
            (select (matches ''.property-edit-field'') d)"
    unfolding each_def by (rule select_map_elems) auto
  moreover assume "e \<in> set (select (matches ''.property-edit-field'')
              (each (matches ''.property-edit-field'') (\<lambda>e. e\<lparr>hidden := False\<rparr>) d))"
  ultimately show ?thesis
    using select_sound[of _ "matches ''.property-edit-field''" d] by auto
qed

text \<open>
  Claim C8.  With no \<^verbatim>\<open>product_tab\<close> (or \<^verbatim>\<open>category_tab\<close>) cookie, tab 0 is selected
  at load; with the cookie set, the index selected is \<^const>\<open>parseInt\<close> of its value, and
  an index stored by the \<^verbatim>\<open>tabsshow\<close> handler is read back as itself.  With no
  \<^verbatim>\<open>property-edit-mode\<close> cookie the click handler takes the branch of mode off: it shows
  every edit field and stores \<^verbatim>\<open>true\<close>.
\<close>

theorem stored_preferences_defaults:
  "(c ''product_tab'' = None \<longrightarrow> product_tabs (select_tabs_on_load c) = Some 0)
   \<and> (c ''product_tab'' = Some v \<longrightarrow> product_tabs (select_tabs_on_load c) = parseInt v)
   \<and> (c ''category_tab'' = None \<longrightarrow> category_tabs (select_tabs_on_load c) = Some 0)
   \<and> (c ''category_tab'' = Some v \<longrightarrow> category_tabs (select_tabs_on_load c) = parseInt v)
   \<and> product_tabs (select_tabs_on_load (product_tabs_show i c)) = Some (int i)
   \<and> category_tabs (select_tabs_on_load (category_tabs_show i c)) = Some (int i)
   \<and> (c ''property-edit-mode'' = None \<longrightarrow>
        fst (property_edit_mode_click (c, d)) = c(''property-edit-mode'' \<mapsto> ''true'')
      \<and> snd (property_edit_mode_click (c, d))
          = each (matches ''.property-edit-field'') (\<lambda>e. e\<lparr>hidden := False\<rparr>) d
      \<and> (\<forall>e \<in> set (select (matches ''.property-edit-field'')
                       (snd (property_edit_mode_click (c, d)))). \<not> hidden e))"
  using property_edit_fields_shown[of _ d]
  by (auto simp: select_tabs_on_load_def product_tabs_show_def category_tabs_show_def
      parseInt_string_of_nat property_edit_mode_click_def Let_def)

theorem stored_preferences_defaults_witness:
  "product_tabs (select_tabs_on_load Map.empty) = Some 0
   \<and> category_tabs (select_tabs_on_load [''category_tab'' \<mapsto> ''2'']) = Some 2
   \<and> property_edit_mode_click
        (Map.empty, Elem (element ''div'' [''property-edit-field''] []\<lparr>hidden := True\<rparr>) [])
      = ([''property-edit-mode'' \<mapsto> ''true''], Elem (element ''div'' [''property-edit-field''] []) [])"
proof -
  have p: "parseInt ''2'' = Some 2"
    by (simp add: parseInt_def is_space_def digit_value_def)
  have e: "each (matches ''.property-edit-field'') (\<lambda>e. e\<lparr>hidden := False\<rparr>)
             (Elem (element ''div'' [''property-edit-field''] []\<lparr>hidden := True\<rparr>) [])
           = Elem (element ''div'' [''property-edit-field''] []) []"
    by (simp add: each_def element_def matches.simps)
  from stored_preferences_defaults[where c = Map.empty and v = "''2''" and i = 0
      and d = "Elem (element ''div'' [''property-edit-field''] []\<lparr>hidden := True\<rparr>) []"]
    stored_preferences_defaults[where c = "[''category_tab'' \<mapsto> ''2'']" and v = "''2''"
      and i = 0 and d = "Text []"]
  show ?thesis
    unfolding e p by (simp add: prod_eq_iff)
qed

section \<open>Filter fields and timers\<close>

lemma run_timers_none: "\<forall>x \<in> set (timers b). t < due x \<Longrightarrow> run_timers t b = b"
proof -
  assume a: "\<forall>x \<in> set (timers b). t < due x"
  then have "filter (\<lambda>x. due x \<le> t) (timers b) = []"
    by (auto simp: filter_empty_conv)
  moreover from a have "filter (\<lambda>x. \<not> due x \<le> t) (timers b) = timers b"
    by (auto simp: filter_id_conv)
  ultimately show ?thesis by (simp add: run_timers_def)
qed

lemma keyup_pending:
  assumes "timers b = [tm]" and "timeout b = Some (timer_id tm)"
  shows "timers (products_name_filter_keyup t form (type_text form v b))
           = [\<lparr>timer_id = next_timer b, due = t + 500, timer_form = form\<rparr>]"
    and "timeout (products_name_filter_keyup t form (type_text form v b)) = Some (next_timer b)"
    and "requests (products_name_filter_keyup t form (type_text form v b)) = requests b"
    and "field_text (products_name_filter_keyup t form (type_text form v b)) form = v"
  using assms
  by (simp_all add: products_name_filter_keyup_def type_text_def clearTimeout_def setTimeout_def)

lemma keyup_first:
  assumes "timers b = []"
  shows "timers (products_name_filter_keyup t form (type_text form v b))
           = [\<lparr>timer_id = next_timer b, due = t + 500, timer_form = form\<rparr>]"
    and "timeout (products_name_filter_keyup t form (type_text form v b)) = Some (next_timer b)"
    and "requests (products_name_filter_keyup t form (type_text form v b)) = requests b"
    and "field_text (products_name_filter_keyup t form (type_text form v b)) form = v"
  using assms
  by (simp_all add: products_name_filter_keyup_def type_text_def clearTimeout_def setTimeout_def
      split: option.splits)

lemma quiesce_single:
  "timers b = [tm] \<Longrightarrow>
     requests (quiesce b) = requests b @ [(due tm, timer_form tm, field_text b (timer_form tm))]"
  by (simp add: quiesce_def fire_def ajaxSubmit_def)

lemma burst_pending:
  assumes "timers b = [tm]" and "timeout b = Some (timer_id tm)"
    and "quiet_burst ((t0, form0, v0) # ks)" and "due tm = t0 + 500"
    and "timer_form tm = form0" and "field_text b form0 = v0"
  shows "requests (quiesce (products_name_typing ks b))
           = requests b @ [(fst (last ((t0, form0, v0) # ks)) + 500,
                            snd (last ((t0, form0, v0) # ks)))]"
  using assms
proof (induction ks arbitrary: b tm t0 form0 v0)
  case Nil
  then show ?case by (simp add: quiesce_single)
next
  case (Cons k ks)
  obtain t form v where k: "k = (t, form, v)" by (cases k)
  let ?b = "products_name_filter_keyup t form (type_text form v b)"
  let ?tm = "\<lparr>timer_id = next_timer b, due = t + 500, timer_form = form\<rparr>"
  from Cons.prems k have lt: "t < t0 + 500" and q: "quiet_burst ((t, form, v) # ks)"
    by simp_all
  with Cons.prems have rt: "run_timers t b = b"
    by (simp add: run_timers_none)
  note kp = keyup_pending[OF Cons.prems(1,2), of t form v]
  have "requests (quiesce (products_name_typing ks ?b))
          = requests ?b @ [(fst (last ((t, form, v) # ks)) + 500,
                            snd (last ((t, form, v) # ks)))]"
    by (rule Cons.IH[of ?b ?tm]) (simp_all add: kp q)
  then show ?case
    by (simp add: k rt kp)
qed

lemma burst_from_idle:
  assumes "timers b = []" and "quiet_burst ks" and "ks \<noteq> []"
  shows "requests (quiesce (products_name_typing ks b))
           = requests b @ [(fst (last ks) + 500, snd (last ks))]"
proof -
  from assms obtain t form v ks' where ks: "ks = (t, form, v) # ks'"
    by (cases ks) auto
  let ?b = "products_name_filter_keyup t form (type_text form v b)"
  let ?tm = "\<lparr>timer_id = next_timer b, due = t + 500, timer_form = form\<rparr>"
  have rt: "run_timers t b = b" using assms(1) by (simp add: run_timers_none)
  note kf = keyup_first[OF assms(1), of t form v]
  have "requests (quiesce (products_name_typing ks' ?b))
          = requests ?b @ [(fst (last ((t, form, v) # ks')) + 500,
                            snd (last ((t, form, v) # ks')))]"
    by (rule burst_pending[of ?b ?tm]) (use assms(2) ks in \<open>simp_all add: kf\<close>)
  then show ?thesis by (simp add: ks rt kf)
qed

lemma category_typing_requests:
  "timers b = [] \<Longrightarrow>
     requests (category_products_typing ks b)
       = requests b @ map (\<lambda>(t, v). (t, ''#category-products-filter-form'', v)) ks
     \<and> timers (category_products_typing ks b) = []"
proof (induction ks arbitrary: b)
  case Nil
  then show ?case by simp
next
  case (Cons k ks)
  obtain t v where k: "k = (t, v)" by (cases k)
  let ?b = "category_products_filter_input_keyup t
          (type_text ''#category-products-filter-form'' v b)"
  have rt: "run_timers t b = b" using Cons.prems by (simp add: run_timers_none)
  have t: "timers ?b = []" using Cons.prems
    by (simp add: category_products_filter_input_keyup_def ajaxSubmit_def type_text_def)
  have r: "requests ?b = requests b @ [(t, ''#category-products-filter-form'', v)]"
    by (simp add: category_products_filter_input_keyup_def ajaxSubmit_def type_text_def)
  from Cons.IH[OF t] show ?case
    by (simp add: k rt r)
qed

text \<open>
  Claim C2, as stated, fails for the category-product filter: its keyup handler starts no
  timer and submits on every keystroke.  Keystrokes at 0, 100 and 200 ms give three
  requests, at 0, 100 and 200 ms.
\<close>

theorem category_filter_submits_every_keystroke:
  "requests (quiesce (category_products_typing [(0, ''a''), (100, ''ab''), (200, ''abc'')]
      page_loaded))
   = [(0, ''#category-products-filter-form'', ''a''),
      (100, ''#category-products-filter-form'', ''ab''),
      (200, ''#category-products-filter-form'', ''abc'')]
   \<and> requests (quiesce (category_products_typing [(0, ''a''), (100, ''ab''), (200, ''abc'')]
      page_loaded))
   \<noteq> [(700, ''#category-products-filter-form'', ''abc'')]"
  by (simp add: page_loaded_def quiesce_def run_timers_def type_text_def ajaxSubmit_def
      category_products_filter_input_keyup_def)

text \<open>
  Claim C2, amended.  On a \<^verbatim>\<open>.products-name-filter\<close> field each keystroke cancels the
  timer named by the global \<^verbatim>\<open>timeout\<close> (one variable for all such fields) and
  schedules a submission of the field's form 500 ms later.  So a burst of keystrokes, each
  less than 500 ms after the one before, starting with no timer pending, results in
  exactly one request: 500 ms after the last keystroke, for the form of the last
  keystroke, carrying the text as of the last keystroke.  The
  \<^verbatim>\<open>.category-products-filter-input\<close> field is not debounced: every keystroke sends a
  request at once.
\<close>

theorem products_name_filter_debounce:
  "(timers b = [] \<and> quiet_burst ks \<and> ks \<noteq> [] \<longrightarrow>
      requests (quiesce (products_name_typing ks b))
        = requests b @ [(fst (last ks) + 500, snd (last ks))])
   \<and> (timeout b = Some i \<longrightarrow>
      timers (products_name_filter_keyup t form b)
        = filter (\<lambda>x. timer_id x \<noteq> i) (timers b)
            @ [\<lparr>timer_id = next_timer b, due = t + 500, timer_form = form\<rparr>])
   \<and> (timers b = [] \<longrightarrow>
      requests (quiesce (category_products_typing cs b))
        = requests b @ map (\<lambda>(t, v). (t, ''#category-products-filter-form'', v)) cs)"
proof -
  have "timers b = [] \<Longrightarrow>
      requests (quiesce (category_products_typing cs b))
        = requests b @ map (\<lambda>(t, v). (t, ''#category-products-filter-form'', v)) cs"
    using category_typing_requests[of b cs] by (simp add: quiesce_def)
  moreover have "timeout b = Some i \<Longrightarrow>
      timers (products_name_filter_keyup t form b)
        = filter (\<lambda>x. timer_id x \<noteq> i) (timers b)
            @ [\<lparr>timer_id = next_timer b, due = t + 500, timer_form = form\<rparr>]"
    by (simp add: products_name_filter_keyup_def clearTimeout_def setTimeout_def)
  ultimately show ?thesis
    using burst_from_idle[of b ks] by blast
qed

theorem products_name_filter_debounce_witness:
  "requests (quiesce (products_name_typing
      [(0, ''#filter'', ''a''), (100, ''#filter'', ''ab''), (200, ''#filter'', ''abc'')]
      page_loaded))
   = [(700, ''#filter'', ''abc'')]"
proof -
  have "timers page_loaded = []" and "requests page_loaded = []"
    by (simp_all add: page_loaded_def)
  moreover have
    "quiet_burst [(0, ''#filter'', ''a''), (100, ''#filter'', ''ab''), (200, ''#filter'', ''abc'')]"
    by simp
  ultimately show ?thesis
    using products_name_filter_debounce[where b = page_loaded
        and ks = "[(0, ''#filter'', ''a''), (100, ''#filter'', ''ab''), (200, ''#filter'', ''abc'')]"]
    by simp
qed

section \<open>Selecting product rows\<close>

lemma prev_all_each_stop:
  assumes "is_tag ''tr'' m" and "node_has_class ''marked'' m = b"
    and "\<forall>n \<in> set ys. is_tag ''tr'' n \<longrightarrow> node_has_class ''marked'' n \<noteq> b"
  shows "prev_all_each b (ys @ m # xs)
           = map (\<lambda>n. if is_tag ''tr'' n then check_row b n else n) ys @ m # xs"
  using assms by (induction ys) auto

lemma prev_all_each_all:
  assumes "\<forall>n \<in> set ys. is_tag ''tr'' n \<longrightarrow> node_has_class ''marked'' n \<noteq> b"
  shows "prev_all_each b ys = map (\<lambda>n. if is_tag ''tr'' n then check_row b n else n) ys"
  using assms by (induction ys) auto

lemma drop_list_update_same:
  "i < length xs \<Longrightarrow> drop i (xs[i := x]) = x # drop (Suc i) xs"
  using Cons_nth_drop_Suc[of i "xs[i := x]"] by simp

lemma select_1_click_rows:
  assumes "node_at p d = Some (Elem e ks)"
    and "closest_tr p d = Some (r @ [i])"
    and "node_at r d = Some (Elem pe rows)"
    and "i < length rows"
  shows "node_at r (select_1_click True p d)
           = Some (Elem pe (rev (prev_all_each (checked e) (rev (take i rows)))
                              @ map_props (set_marked (checked e)) (rows ! i) # drop (Suc i) rows))"
    and "node_at r (select_1_click False p d)
           = Some (Elem pe (take i rows
                              @ map_props (set_marked (checked e)) (rows ! i) # drop (Suc i) rows))"
proof -
  have u: "update_at (r @ [i]) g d = update_at r (update_at [i] g) d" for g
    by (rule update_at_append)
  have k: "prev_all_rows b i (rows[i := x])
             = rev (prev_all_each b (rev (take i rows))) @ x # drop (Suc i) rows" for b x
    using assms(4) by (simp add: prev_all_rows_def drop_list_update_same)
  show "node_at r (select_1_click True p d)
           = Some (Elem pe (rev (prev_all_each (checked e) (rev (take i rows)))
                              @ map_props (set_marked (checked e)) (rows ! i) # drop (Suc i) rows))"
    using assms
    by (simp add: select_1_click_def u update_at_comp node_at_update_at map_kids_def k Let_def)
  have "rows[i := x] = take i rows @ x # drop (Suc i) rows" for x
    using assms(4) by (simp add: upd_conv_take_nth_drop)
  then show "node_at r (select_1_click False p d)
           = Some (Elem pe (take i rows
                              @ map_props (set_marked (checked e)) (rows ! i) # drop (Suc i) rows))"
    using assms
    by (simp add: select_1_click_def u node_at_update_at Let_def)
qed

lemma closest_tr_is_row:
  "closest_tr p d = Some q \<Longrightarrow> \<exists>n. node_at q d = Some n \<and> is_tag ''tr'' n"
  by (auto simp: closest_tr_def find_Some_iff split: option.splits)

lemma check_row_marked:
  "is_tag ''tr'' n \<Longrightarrow> node_has_class ''marked'' (check_row b n) = b"
  by (cases n)
    (auto simp: is_tag_def node_has_class_def check_row_def map_props_def map_kids_def
      set_marked_def add_class_def remove_class_def has_class_def)

lemma check_row_inputs:
  assumes "is_tag ''tr'' n"
    and "x \<in> set (select (\<lambda>e. tag e = ''input'' \<and> has_class ''select-1'' e) (check_row b n))"
  shows "checked x = b"
proof -
  let ?P = "\<lambda>e. tag e = ''input'' \<and> has_class ''select-1'' e"
  from assms(1) obtain e ks where n: "n = Elem e ks" and e: "tag e = ''tr''"
    by (cases n) (auto simp: is_tag_def)
  have s: "select ?P (each ?P (\<lambda>e. e\<lparr>checked := b\<rparr>) k)
             = map (\<lambda>e. if ?P e then e\<lparr>checked := b\<rparr> else e) (select ?P k)" for k
    unfolding each_def by (rule select_map_elems) (auto simp: has_class_def)
  have cr: "check_row b n
              = Elem (set_marked b e) (map (each ?P (\<lambda>e. e\<lparr>checked := b\<rparr>)) ks)"
    by (simp add: n check_row_def map_props_def map_kids_def)
  have t: "tag (set_marked b e) = ''tr''"
    by (simp add: set_marked_def add_class_def remove_class_def e)
  from assms(2) have "x \<in> set (concat (map (select ?P)
      (map (each ?P (\<lambda>e. e\<lparr>checked := b\<rparr>)) ks)))"
    unfolding cr using t by simp
  then obtain k where "k \<in> set ks"
    and "x \<in> set (select ?P (each ?P (\<lambda>e. e\<lparr>checked := b\<rparr>) k))"
    by auto
  then obtain y where y: "y \<in> set (select ?P k)"
    and x: "x = (if ?P y then y\<lparr>checked := b\<rparr> else y)"
    unfolding s by auto
  from y have "?P y" by (rule select_sound)
  with x show ?thesis by simp
qed

text \<open>
  Claim C10.  The clicked input is at path \<open>p\<close>, its row is child \<open>i\<close> of the element
  at \<open>r\<close>, whose children are \<open>rows\<close>; \<open>checked e\<close> is the state the click left the
  input in.  With the shift key down, if \<open>m\<close> is the nearest row before the clicked one
  whose marking already agrees with that state (marked, when the input became checked;
  unmarked, when it became unchecked), the rows between \<open>m\<close> and the clicked row are
  marked, with their \<^verbatim>\<open>input.select-1\<close> checked (respectively unmarked and unchecked);
  \<open>m\<close> and everything before it are left alone.  With no such row, every row before the
  clicked one is treated so.  The clicked row itself is marked (unmarked) in every case,
  and without the shift key nothing else changes.
\<close>

theorem shift_click_marks_preceding_rows:
  assumes "node_at p d = Some (Elem e ks)"
    and "closest_tr p d = Some (r @ [i])"
    and "node_at r d = Some (Elem pe rows)"
  shows "(take i rows = xs @ m # ys \<and> is_tag ''tr'' m
            \<and> node_has_class ''marked'' m = checked e
            \<and> (\<forall>n \<in> set ys. is_tag ''tr'' n \<longrightarrow> node_has_class ''marked'' n \<noteq> checked e)
          \<longrightarrow> node_at r (select_1_click True p d)
                = Some (Elem pe (xs @ m
                    # map (\<lambda>n. if is_tag ''tr'' n then check_row (checked e) n else n) ys
                    @ map_props (set_marked (checked e)) (rows ! i) # drop (Suc i) rows)))
       \<and> ((\<forall>n \<in> set (take i rows). is_tag ''tr'' n \<longrightarrow> node_has_class ''marked'' n \<noteq> checked e)
          \<longrightarrow> node_at r (select_1_click True p d)
                = Some (Elem pe
                    (map (\<lambda>n. if is_tag ''tr'' n then check_row (checked e) n else n) (take i rows)
                    @ map_props (set_marked (checked e)) (rows ! i) # drop (Suc i) rows)))
       \<and> node_at r (select_1_click False p d)
            = Some (Elem pe (take i rows
                    @ map_props (set_marked (checked e)) (rows ! i) # drop (Suc i) rows))
       \<and> (\<forall>n. is_tag ''tr'' n \<longrightarrow>
            node_has_class ''marked'' (check_row (checked e) n) = checked e
          \<and> (\<forall>x \<in> set (select (\<lambda>e. tag e = ''input'' \<and> has_class ''select-1'' e)
                          (check_row (checked e) n)). checked x = checked e))"
proof -
  from closest_tr_is_row[OF assms(2)] assms(3) have i: "i < length rows"
    by (auto simp: node_at_append split: if_splits)
  note rows = select_1_click_rows[OF assms i]
  have a: "node_at r (select_1_click True p d)
                = Some (Elem pe (xs @ m
                    # map (\<lambda>n. if is_tag ''tr'' n then check_row (checked e) n else n) ys
                    @ map_props (set_marked (checked e)) (rows ! i) # drop (Suc i) rows))"
    if "take i rows = xs @ m # ys" "is_tag ''tr'' m" "node_has_class ''marked'' m = checked e"
      "\<forall>n \<in> set ys. is_tag ''tr'' n \<longrightarrow> node_has_class ''marked'' n \<noteq> checked e"
  proof -
    have "prev_all_each (checked e) (rev ys @ m # rev xs)
            = map (\<lambda>n. if is_tag ''tr'' n then check_row (checked e) n else n) (rev ys)
                @ m # rev xs"
      by (rule prev_all_each_stop) (use that in auto)
    then show ?thesis
      unfolding rows(1) that(1) by (simp add: rev_map)
  qed
  have b: "node_at r (select_1_click True p d)
                = Some (Elem pe
                    (map (\<lambda>n. if is_tag ''tr'' n then check_row (checked e) n else n) (take i rows)
                    @ map_props (set_marked (checked e)) (rows ! i) # drop (Suc i) rows))"
    if "\<forall>n \<in> set (take i rows). is_tag ''tr'' n \<longrightarrow> node_has_class ''marked'' n \<noteq> checked e"
  proof -
    have "prev_all_each (checked e) (rev (take i rows))
            = map (\<lambda>n. if is_tag ''tr'' n then check_row (checked e) n else n) (rev (take i rows))"
      by (rule prev_all_each_all) (use that in auto)
    then show ?thesis
      unfolding rows(1) by (simp add: rev_map)
  qed
  from a b rows(2) check_row_marked check_row_inputs show ?thesis
    by blast
qed

theorem shift_click_marks_preceding_rows_witness:
  "node_at [] (select_1_click True [3, 0, 0]
     (Elem (element ''table'' [] [])
       [Elem (element ''tr'' [] []) [Elem (element ''td'' [] []) [Elem (element ''input'' [''select-1''] []) []]],
        Elem (element ''tr'' [''marked''] []) [Elem (element ''td'' [] []) [Elem ((element ''input'' [''select-1''] [])\<lparr>checked := True\<rparr>) []]],
        Elem (element ''tr'' [] []) [Elem (element ''td'' [] []) [Elem (element ''input'' [''select-1''] []) []]],
        Elem (element ''tr'' [] []) [Elem (element ''td'' [] []) [Elem ((element ''input'' [''select-1''] [])\<lparr>checked := True\<rparr>) []]]]))
   = Some
     (Elem (element ''table'' [] [])
       [Elem (element ''tr'' [] []) [Elem (element ''td'' [] []) [Elem (element ''input'' [''select-1''] []) []]],
        Elem (element ''tr'' [''marked''] []) [Elem (element ''td'' [] []) [Elem ((element ''input'' [''select-1''] [])\<lparr>checked := True\<rparr>) []]],
        Elem (element ''tr'' [''marked''] []) [Elem (element ''td'' [] []) [Elem ((element ''input'' [''select-1''] [])\<lparr>checked := True\<rparr>) []]],
        Elem (element ''tr'' [''marked''] []) [Elem (element ''td'' [] []) [Elem ((element ''input'' [''select-1''] [])\<lparr>checked := True\<rparr>) []]]])"
proof -
  let ?rows = "[Elem (element ''tr'' [] []) [Elem (element ''td'' [] []) [Elem (element ''input'' [''select-1''] []) []]],
        Elem (element ''tr'' [''marked''] []) [Elem (element ''td'' [] []) [Elem ((element ''input'' [''select-1''] [])\<lparr>checked := True\<rparr>) []]],
        Elem (element ''tr'' [] []) [Elem (element ''td'' [] []) [Elem (element ''input'' [''select-1''] []) []]],
        Elem (element ''tr'' [] []) [Elem (element ''td'' [] []) [Elem ((element ''input'' [''select-1''] [])\<lparr>checked := True\<rparr>) []]]]"
  let ?d = "Elem (element ''table'' [] []) ?rows"
  let ?e = "(element ''input'' [''select-1''] [])\<lparr>checked := True\<rparr>"
  have 1: "node_at [3, 0, 0] ?d = Some (Elem ?e [])"
    by simp
  have 2: "closest_tr [3, 0, 0] ?d = Some ([] @ [3])"
    by (simp add: closest_tr_def ancestors_def is_tag_def element_def)
  have 3: "node_at [] ?d = Some (Elem (element ''table'' [] []) ?rows)"
    by simp
  have 4: "take 3 ?rows = [Elem (element ''tr'' [] []) [Elem (element ''td'' [] []) [Elem (element ''input'' [''select-1''] []) []]]] @ Elem (element ''tr'' [''marked''] []) [Elem (element ''td'' [] []) [Elem ((element ''input'' [''select-1''] [])\<lparr>checked := True\<rparr>) []]] # [Elem (element ''tr'' [] []) [Elem (element ''td'' [] []) [Elem (element ''input'' [''select-1''] []) []]]]
      \<and> is_tag ''tr'' (Elem (element ''tr'' [''marked''] []) [Elem (element ''td'' [] []) [Elem ((element ''input'' [''select-1''] [])\<lparr>checked := True\<rparr>) []]])
      \<and> node_has_class ''marked'' (Elem (element ''tr'' [''marked''] []) [Elem (element ''td'' [] []) [Elem ((element ''input'' [''select-1''] [])\<lparr>checked := True\<rparr>) []]]) = checked ?e
      \<and> (\<forall>n \<in> set [Elem (element ''tr'' [] []) [Elem (element ''td'' [] []) [Elem (element ''input'' [''select-1''] []) []]]].
            is_tag ''tr'' n \<longrightarrow> node_has_class ''marked'' n \<noteq> checked ?e)"
    by (simp add: is_tag_def node_has_class_def has_class_def element_def)
  from shift_click_marks_preceding_rows[OF 1 2 3, of "[Elem (element ''tr'' [] []) [Elem (element ''td'' [] []) [Elem (element ''input'' [''select-1''] []) []]]]" "Elem (element ''tr'' [''marked''] []) [Elem (element ''td'' [] []) [Elem ((element ''input'' [''select-1''] [])\<lparr>checked := True\<rparr>) []]]" "[Elem (element ''tr'' [] []) [Elem (element ''td'' [] []) [Elem (element ''input'' [''select-1''] []) []]]]"] 4
  show ?thesis
    by (simp add: is_tag_def check_row_def map_props_def map_kids_def set_marked_def
        add_class_def each_def has_class_def element_def)
qed

section \<open>Confirmation links\<close>

lemma render_confirmation_widget:
  "classes e \<noteq> [] \<Longrightarrow>
     render (confirmation_widget e) =
       ''<span><span class='' @ [CHR 0x27] @ join (classes e) @ [CHR 0x27] @ ''>''
         @ js_string (attr ''data'' e)
         @ ''</span> <a href='' @ [CHR 0x27] @ js_string (attr ''href'' e) @ [CHR 0x27]
         @ ''>Yes</a> <a class='' @ [CHR 0x27] @ ''confirmation-link-no'' @ [CHR 0x27]
         @ '' href='' @ [CHR 0x27] @ [CHR 0x27] @ ''>No</a></span>''"
  by (simp add: confirmation_widget_def element_def Let_def)

lemma widget_parts:
  "node_at [4] (confirmation_widget e)
     = Some (Elem (element ''a'' [''confirmation-link-no''] [(''href'', [])]) [Text ''No''])"
  "node_at [2] (confirmation_widget e)
     = Some (Elem (element ''a'' [] [(''href'', js_string (attr ''href'' e))]) [Text ''Yes''])"
  by (simp_all add: confirmation_widget_def Let_def)

lemma live_target_self:
  assumes "node_at p d = Some (Elem e ks)"
    and "has_class ''confirmation-link-no'' e \<or> has_class ''confirmation-link'' e"
  shows "live_target p d = Some p"
  using assms by (simp add: live_target_def)

lemma click_link:
  assumes "node_at p (blocks st) = Some (Elem e ks)"
    and "has_class ''confirmation-link'' e" and "\<not> has_class ''confirmation-link-no'' e"
  shows "click p st
           = (st\<lparr>confirmation := Some (Elem e ks),
                 blocks := replace_at p (confirmation_widget e) (blocks st)\<rparr>, Stays)"
  using assms live_target_self[OF assms(1)]
  by (simp add: click_def confirmation_link_click_def)

lemma click_no:
  assumes "node_at p (blocks st) = Some (confirmation_widget e)"
    and "confirmation st = Some n"
  shows "click (p @ [4]) st = (st\<lparr>blocks := replace_at p n (blocks st)\<rparr>, Stays)"
proof -
  let ?no = "element ''a'' [''confirmation-link-no''] [(''href'', [])]"
  have at: "node_at (p @ [4]) (blocks st) = Some (Elem ?no [Text ''No''])"
    using assms(1) by (simp add: node_at_append widget_parts)
  have cls: "has_class ''confirmation-link-no'' ?no"
    by (simp add: has_class_def element_def)
  from live_target_self[OF at] cls have "live_target (p @ [4]) (blocks st) = Some (p @ [4])"
    by simp
  with at cls assms(2) show ?thesis
    by (simp add: click_def confirmation_link_no_click_def)
qed

lemma click_yes:
  assumes "node_at p (blocks st) = Some (confirmation_widget e)"
    and "\<forall>q \<in> set (ancestors p).
           case node_at q (blocks st) of
             Some (Elem a ks) \<Rightarrow>
               \<not> (has_class ''confirmation-link-no'' a \<or> has_class ''confirmation-link'' a)
           | _ \<Rightarrow> True"
  shows "click (p @ [2]) st = (st, Navigates (js_string (attr ''href'' e)))"
proof -
  let ?d = "blocks st"
  let ?yes = "element ''a'' [] [(''href'', js_string (attr ''href'' e))]"
  let ?live = "\<lambda>q. case node_at q ?d of
                 Some (Elem e ks) \<Rightarrow>
                   has_class ''confirmation-link-no'' e \<or> has_class ''confirmation-link'' e
               | _ \<Rightarrow> False"
  have at: "node_at (p @ [2]) ?d = Some (Elem ?yes [Text ''Yes''])"
    using assms(1) by (simp add: node_at_append widget_parts)
  have 1: "\<not> ?live (p @ [2])"
    by (simp add: at has_class_def element_def)
  have 2: "\<not> ?live p"
    by (simp add: assms(1) confirmation_widget_def Let_def has_class_def element_def)
  have 3: "\<not> ?live q" if "q \<in> set (ancestors p)" for q
    using assms(2) that by (auto split: option.splits node.splits)
  have "find ?live ((p @ [2]) # p # ancestors p) = None"
    using 1 2 3 by (simp add: find_None_iff)
  then have lt: "live_target (p @ [2]) ?d = None"
    by (simp add: live_target_def ancestors_snoc)
  have da: "default_action (p @ [2]) ?d = Navigates (js_string (attr ''href'' e))"
    by (simp add: default_action_def at element_def attr_def js_string_def)
  from lt da show ?thesis
    by (simp add: click_def)
qed

text \<open>
  Claim C4.  Take a link at path \<open>p\<close> with the class \<^verbatim>\<open>confirmation-link\<close>.  A click
  on it runs the handler, which remembers the link, puts the widget in its place and
  returns \<^verbatim>\<open>false\<close>: the browser stays on the page.  A click on the widget's ``No''
  then puts the remembered link back, so the document is the one before the first click,
  with the link unchanged at \<open>p\<close>, and again the browser stays.  A click on the widget's
  ``Yes'' runs no handler and the browser navigates to the \<^verbatim>\<open>href\<close> of the link; this
  needs that no element above the link carries one of the two classes, whose handler would
  otherwise run and suppress the navigation.
\<close>

theorem confirmation_flow:
  assumes "node_at p (blocks st) = Some (Elem e ks)"
    and "has_class ''confirmation-link'' e"
    and "\<not> has_class ''confirmation-link-no'' e"
  shows "click p st
           = (st\<lparr>confirmation := Some (Elem e ks),
                 blocks := replace_at p (confirmation_widget e) (blocks st)\<rparr>, Stays)
       \<and> click (p @ [4]) (fst (click p st)) = (st\<lparr>confirmation := Some (Elem e ks)\<rparr>, Stays)
       \<and> node_at p (blocks (fst (click (p @ [4]) (fst (click p st))))) = Some (Elem e ks)
       \<and> ((\<forall>q \<in> set (ancestors p).
              case node_at q (blocks st) of
                Some (Elem a ks) \<Rightarrow>
                  \<not> (has_class ''confirmation-link-no'' a \<or> has_class ''confirmation-link'' a)
              | _ \<Rightarrow> True)
            \<longrightarrow> click (p @ [2]) (fst (click p st))
                  = (fst (click p st), Navigates (js_string (attr ''href'' e))))
       \<and> (attr ''href'' e = Some url \<longrightarrow> js_string (attr ''href'' e) = url)"
proof -
  let ?w = "confirmation_widget e"
  let ?st1 = "st\<lparr>confirmation := Some (Elem e ks), blocks := replace_at p ?w (blocks st)\<rparr>"
  have c1: "click p st = (?st1, Stays)"
    by (rule click_link[OF assms])
  have w: "node_at p (blocks ?st1) = Some ?w"
    using assms(1) by (simp add: node_at_replace_at)
  have "click (p @ [4]) ?st1 = (?st1\<lparr>blocks := replace_at p (Elem e ks) (blocks ?st1)\<rparr>, Stays)"
    by (rule click_no[OF w]) simp
  then have c2: "click (p @ [4]) ?st1 = (st\<lparr>confirmation := Some (Elem e ks)\<rparr>, Stays)"
    using assms(1) by (simp add: replace_at_twice replace_at_self)
  have c3: "click (p @ [2]) ?st1 = (?st1, Navigates (js_string (attr ''href'' e)))"
    if a: "\<forall>q \<in> set (ancestors p).
              case node_at q (blocks st) of
                Some (Elem a ks) \<Rightarrow>
                  \<not> (has_class ''confirmation-link-no'' a \<or> has_class ''confirmation-link'' a)
              | _ \<Rightarrow> True"
  proof (rule click_yes[OF w], rule ballI)
    fix q assume q: "q \<in> set (ancestors p)"
    then have "strict_prefix q p" by (simp add: ancestors_strict_prefix)
    from node_at_update_at_above[OF this, where f = "\<lambda>_. ?w" and d = "blocks st" and R = True]
    have "(case node_at q (blocks ?st1) of
             Some (Elem a ks) \<Rightarrow>
               \<not> (has_class ''confirmation-link-no'' a \<or> has_class ''confirmation-link'' a)
           | _ \<Rightarrow> True)
         = (case node_at q (blocks st) of
             Some (Elem a ks) \<Rightarrow>
               \<not> (has_class ''confirmation-link-no'' a \<or> has_class ''confirmation-link'' a)
           | _ \<Rightarrow> True)"
      by (simp add: replace_at_def)
    with a q show "case node_at q (blocks ?st1) of
             Some (Elem a ks) \<Rightarrow>
               \<not> (has_class ''confirmation-link-no'' a \<or> has_class ''confirmation-link'' a)
           | _ \<Rightarrow> True"
      by blast
  qed
  have c4: "node_at p (blocks (st\<lparr>confirmation := Some (Elem e ks)\<rparr>)) = Some (Elem e ks)"
    using assms(1) by simp
  show ?thesis
    unfolding c1 fst_conv c2 using c3 c4 by (simp add: js_string_def)
qed

theorem confirmation_flow_witness:
  "snd (click [0, 0]
      \<lparr>blocks = Elem (element ''ul'' [] [])
          [Elem (element ''li'' [] []) [Elem (element ''a'' [''confirmation-link''] [(''href'', ''/delete/1''), (''data'', ''Delete?'')]) [Text ''One'']],
           Elem (element ''li'' [] []) [Elem (element ''a'' [''confirmation-link''] [(''href'', ''/delete/2''), (''data'', ''Delete?'')]) [Text ''Two'']]],
        confirmation = None\<rparr>) = Stays
   \<and> click [0, 0, 4] (fst (click [0, 0]
      \<lparr>blocks = Elem (element ''ul'' [] [])
          [Elem (element ''li'' [] []) [Elem (element ''a'' [''confirmation-link''] [(''href'', ''/delete/1''), (''data'', ''Delete?'')]) [Text ''One'']],
           Elem (element ''li'' [] []) [Elem (element ''a'' [''confirmation-link''] [(''href'', ''/delete/2''), (''data'', ''Delete?'')]) [Text ''Two'']]],
        confirmation = None\<rparr>))
     = (\<lparr>blocks = Elem (element ''ul'' [] [])
          [Elem (element ''li'' [] []) [Elem (element ''a'' [''confirmation-link''] [(''href'', ''/delete/1''), (''data'', ''Delete?'')]) [Text ''One'']],
           Elem (element ''li'' [] []) [Elem (element ''a'' [''confirmation-link''] [(''href'', ''/delete/2''), (''data'', ''Delete?'')]) [Text ''Two'']]],
        confirmation = Some (Elem (element ''a'' [''confirmation-link''] [(''href'', ''/delete/1''), (''data'', ''Delete?'')]) [Text ''One''])\<rparr>, Stays)
   \<and> snd (click [0, 0, 2] (fst (click [0, 0]
      \<lparr>blocks = Elem (element ''ul'' [] [])
          [Elem (element ''li'' [] []) [Elem (element ''a'' [''confirmation-link''] [(''href'', ''/delete/1''), (''data'', ''Delete?'')]) [Text ''One'']],
           Elem (element ''li'' [] []) [Elem (element ''a'' [''confirmation-link''] [(''href'', ''/delete/2''), (''data'', ''Delete?'')]) [Text ''Two'']]],
        confirmation = None\<rparr>))) = Navigates ''/delete/1''"
proof -
  let ?e = "element ''a'' [''confirmation-link''] [(''href'', ''/delete/1''), (''data'', ''Delete?'')]"
  let ?st = "\<lparr>blocks = Elem (element ''ul'' [] [])
          [Elem (element ''li'' [] []) [Elem (element ''a'' [''confirmation-link''] [(''href'', ''/delete/1''), (''data'', ''Delete?'')]) [Text ''One'']],
           Elem (element ''li'' [] []) [Elem (element ''a'' [''confirmation-link''] [(''href'', ''/delete/2''), (''data'', ''Delete?'')]) [Text ''Two'']]],
        confirmation = None\<rparr>"
  have 1: "node_at [0, 0] (blocks ?st) = Some (Elem ?e [Text ''One''])"
    by simp
  have 2: "has_class ''confirmation-link'' ?e" and 3: "\<not> has_class ''confirmation-link-no'' ?e"
    by (simp_all add: has_class_def element_def)
  have 4: "\<forall>q \<in> set (ancestors [0, 0]).
              case node_at q (blocks ?st) of
                Some (Elem a ks) \<Rightarrow>
                  \<not> (has_class ''confirmation-link-no'' a \<or> has_class ''confirmation-link'' a)
              | _ \<Rightarrow> True"
    by (simp add: ancestors_def has_class_def element_def)
  have 5: "attr ''href'' ?e = Some ''/delete/1''"
    by (simp add: attr_def element_def)
  note flow = confirmation_flow[OF 1 2 3, of "''/delete/1''"]
  have a: "snd (click [0, 0] ?st) = Stays"
    using flow[THEN conjunct1] by (simp only: snd_conv)
  have b: "click [0, 0, 4] (fst (click [0, 0] ?st))
             = (?st\<lparr>confirmation := Some (Elem ?e [Text ''One''])\<rparr>, Stays)"
    using flow[THEN conjunct2, THEN conjunct1] by simp
  have c: "snd (click [0, 0, 2] (fst (click [0, 0] ?st))) = Navigates ''/delete/1''"
    using flow[THEN conjunct2, THEN conjunct2, THEN conjunct2, THEN conjunct1, THEN mp, OF 4]
    by (simp add: 5 js_string_def)
  from a b c show ?thesis
    by simp
qed

text \<open>
  Claim C7.  There is one variable \<^const>\<open>confirmation\<close> for the whole page.  With two
  confirmation links at paths \<open>p1\<close> and \<open>p2\<close>, neither inside the other, a click on the
  first and then on the second leaves the second link in the variable: the first link is
  no longer remembered.  A click on ``No'' in the first widget then puts the second link
  where the first widget was, while the second widget is still showing.
\<close>

theorem single_confirmation_slot:
  assumes "node_at p1 (blocks st) = Some (Elem e1 ks1)"
    and "has_class ''confirmation-link'' e1" and "\<not> has_class ''confirmation-link-no'' e1"
    and "node_at p2 (blocks st) = Some (Elem e2 ks2)"
    and "has_class ''confirmation-link'' e2" and "\<not> has_class ''confirmation-link-no'' e2"
    and "\<not> prefix p1 p2" and "\<not> prefix p2 p1"
  shows "confirmation (fst (click p1 st)) = Some (Elem e1 ks1)
       \<and> confirmation (fst (click p2 (fst (click p1 st)))) = Some (Elem e2 ks2)
       \<and> node_at p1 (blocks (fst (click p2 (fst (click p1 st))))) = Some (confirmation_widget e1)
       \<and> snd (click (p1 @ [4]) (fst (click p2 (fst (click p1 st))))) = Stays
       \<and> node_at p1 (blocks (fst (click (p1 @ [4]) (fst (click p2 (fst (click p1 st)))))))
           = Some (Elem e2 ks2)
       \<and> node_at p2 (blocks (fst (click (p1 @ [4]) (fst (click p2 (fst (click p1 st)))))))
           = Some (confirmation_widget e2)
       \<and> confirmation (fst (click (p1 @ [4]) (fst (click p2 (fst (click p1 st))))))
           = Some (Elem e2 ks2)"
proof -
  let ?d1 = "replace_at p1 (confirmation_widget e1) (blocks st)"
  let ?st1 = "st\<lparr>confirmation := Some (Elem e1 ks1), blocks := ?d1\<rparr>"
  let ?d2 = "replace_at p2 (confirmation_widget e2) ?d1"
  let ?st2 = "?st1\<lparr>confirmation := Some (Elem e2 ks2), blocks := ?d2\<rparr>"
  let ?st3 = "?st2\<lparr>blocks := replace_at p1 (Elem e2 ks2) ?d2\<rparr>"
  have c1: "click p1 st = (?st1, Stays)"
    by (rule click_link[OF assms(1-3)])
  have l2: "node_at p2 (blocks ?st1) = Some (Elem e2 ks2)"
    using assms(4,7,8) by (simp add: replace_at_def node_at_update_at_other)
  have c2: "click p2 ?st1 = (?st2, Stays)"
    using click_link[OF l2 assms(5,6)] by simp
  have w1: "node_at p1 (blocks ?st2) = Some (confirmation_widget e1)"
    using assms(1,7,8) by (simp add: replace_at_def node_at_update_at_other node_at_update_at)
  have c3: "click (p1 @ [4]) ?st2 = (?st3, Stays)"
    using click_no[OF w1, of "Elem e2 ks2"] by simp
  have r1: "node_at p1 (blocks ?st3) = Some (Elem e2 ks2)"
    using w1 by (simp add: node_at_replace_at)
  have "node_at p2 ?d2 = Some (confirmation_widget e2)"
    using l2 by (simp add: node_at_replace_at)
  then have r2: "node_at p2 (blocks ?st3) = Some (confirmation_widget e2)"
    using assms(7,8) by (simp add: replace_at_def node_at_update_at_other)
  show ?thesis
    unfolding c1 fst_conv c2 c3 snd_conv using w1 r1 r2 by simp
qed


theorem single_confirmation_slot_witness:
  "node_at [0, 0] (blocks (fst (click [0, 0, 4] (fst (click [1, 0] (fst (click [0, 0]
      \<lparr>blocks = Elem (element ''ul'' [] [])
          [Elem (element ''li'' [] []) [Elem (element ''a'' [''confirmation-link''] [(''href'', ''/delete/1''), (''data'', ''Delete?'')]) [Text ''One'']],
           Elem (element ''li'' [] []) [Elem (element ''a'' [''confirmation-link''] [(''href'', ''/delete/2''), (''data'', ''Delete?'')]) [Text ''Two'']]],
        confirmation = None\<rparr>)))))))
   = Some (Elem (element ''a'' [''confirmation-link''] [(''href'', ''/delete/2''), (''data'', ''Delete?'')]) [Text ''Two''])"
proof -
  let ?e1 = "element ''a'' [''confirmation-link''] [(''href'', ''/delete/1''), (''data'', ''Delete?'')]"
  let ?e2 = "element ''a'' [''confirmation-link''] [(''href'', ''/delete/2''), (''data'', ''Delete?'')]"
  let ?st = "\<lparr>blocks = Elem (element ''ul'' [] [])
          [Elem (element ''li'' [] []) [Elem (element ''a'' [''confirmation-link''] [(''href'', ''/delete/1''), (''data'', ''Delete?'')]) [Text ''One'']],
           Elem (element ''li'' [] []) [Elem (element ''a'' [''confirmation-link''] [(''href'', ''/delete/2''), (''data'', ''Delete?'')]) [Text ''Two'']]],
        confirmation = None\<rparr>"
  have 1: "node_at [0, 0] (blocks ?st) = Some (Elem ?e1 [Text ''One''])"
    and 2: "node_at [1, 0] (blocks ?st) = Some (Elem ?e2 [Text ''Two''])"
    by simp_all
  have c: "has_class ''confirmation-link'' ?e1" "\<not> has_class ''confirmation-link-no'' ?e1"
    "has_class ''confirmation-link'' ?e2" "\<not> has_class ''confirmation-link-no'' ?e2"
    by (simp_all add: has_class_def element_def)
  have p: "\<not> prefix [0, 0] [1, 0::nat]" "\<not> prefix [1, 0] [0, 0::nat]"
    by simp_all
  from single_confirmation_slot[OF 1 c(1,2) 2 c(3,4) p] show ?thesis
    by simp
qed

section \<open>The export category tree\<close>

lemma set_html_empty_nodes:
  "n \<in> set (select_nodes P (set_html P [] d)) \<Longrightarrow> \<exists>e. n = Elem e []"
  by (induction d) (auto split: if_splits)

lemma update_sub_categories_above:
  assumes "q \<in> set (ancestors p)"
  shows "li_category (node_at q (update_sub_categories p d)) = li_category (node_at q d)"
    and "attr_at k q (update_sub_categories p d) = attr_at k q d"
proof -
  from assms have p: "p \<noteq> []" by (auto simp: ancestors_def)
  note pre = ancestors_prefix_butlast[OF assms]
  show "li_category (node_at q (update_sub_categories p d)) = li_category (node_at q d)"
    using node_at_update_kids_prefix[OF pre, where Q = "\<lambda>e. tag e = ''li'' \<and> has_class ''category'' e"
        and R = False and d = d]
    by (simp add: li_category_def update_sub_categories_def p)
  show "attr_at k q (update_sub_categories p d) = attr_at k q d"
    using node_at_update_kids_prefix[OF pre, where Q = "attr k" and R = None and d = d]
    by (simp add: attr_at_def update_sub_categories_def p)
qed

lemma toggle_done_requests:
  "snd (toggle_done p d)
     = map (\<lambda>q. \<lparr>req_url = attr_at ''data'' q d, req_action = None, on_success = Category_state\<rparr>)
         (filter (\<lambda>q. li_category (node_at q d)) (ancestors p))"
proof -
  let ?d1 = "update_sub_categories p d"
  have f: "filter (\<lambda>q. li_category (node_at q ?d1)) (ancestors p)
          = filter (\<lambda>q. li_category (node_at q d)) (ancestors p)"
    by (rule filter_cong) (simp_all add: update_sub_categories_above)
  have "map (\<lambda>q. \<lparr>req_url = attr_at ''data'' q ?d1, req_action = None,
                   on_success = Category_state\<rparr>)
          (filter (\<lambda>q. li_category (node_at q d)) (ancestors p))
        = map (\<lambda>q. \<lparr>req_url = attr_at ''data'' q d, req_action = None,
                   on_success = Category_state\<rparr>)
          (filter (\<lambda>q. li_category (node_at q d)) (ancestors p))"
    by (rule map_cong) (simp_all add: update_sub_categories_above)
  with f show ?thesis
    by (simp add: toggle_done_def update_parent_categories_def Let_def)
qed

lemma toggle_done_count:
  "length (snd (toggle_done p d)) = card {q. strict_prefix q p \<and> li_category (node_at q d)}"
proof -
  have "{q. strict_prefix q p \<and> li_category (node_at q d)}
          = {q. li_category (node_at q d)} \<inter> set (ancestors p)"
    by (auto simp: ancestors_strict_prefix)
  then show ?thesis
    by (simp add: toggle_done_requests distinct_length_filter distinct_ancestors)
qed


lemma ancestors_butlast: "p \<noteq> [] \<Longrightarrow> ancestors p = butlast p # ancestors (butlast p)"
  using ancestors_snoc[of "butlast p" "last p"] by simp

lemma toggle_done_count_own:
  assumes "p \<noteq> []"
  shows "length (snd (toggle_done p d))
           = (if li_category (node_at (butlast p) d) then 1 else 0)
               + card {q. strict_prefix q (butlast p) \<and> li_category (node_at q d)}"
proof -
  have "{q. strict_prefix q (butlast p) \<and> li_category (node_at q d)}
          = {q. li_category (node_at q d)} \<inter> set (ancestors (butlast p))"
    by (auto simp: ancestors_strict_prefix)
  then show ?thesis
    by (simp add: toggle_done_requests ancestors_butlast[OF assms] distinct_length_filter
        distinct_ancestors)
qed

text \<open>
  Claim C3, as stated, fails in its count of state requests.  The callback asks for the
  state of every \<^verbatim>\<open>li.category\<close> above the checkbox, and the first of these is the
  element of the toggled category itself.  A category at the top of the tree, with no
  category above it, still gives one state request, for its own state.
\<close>

theorem top_category_requests_own_state:
  "ancestors [0 :: nat] = [[]]
   \<and> \<not> li_category (node_at []
       (Elem (element ''ul'' [] [])
        [Elem (element ''li'' [''category''] [(''data'', ''/state/1'')])
           [Elem ((element ''input'' [''export-category-input''] [(''data'', ''/edit/1'')])\<lparr>checked := True\<rparr>) [],
            Elem (element ''span'' [''category-state''] []) [Text ''1/2'']]]))
   \<and> li_category (node_at [0]
       (Elem (element ''ul'' [] [])
        [Elem (element ''li'' [''category''] [(''data'', ''/state/1'')])
           [Elem ((element ''input'' [''export-category-input''] [(''data'', ''/edit/1'')])\<lparr>checked := True\<rparr>) [],
            Elem (element ''span'' [''category-state''] []) [Text ''1/2'']]]))
   \<and> snd (toggle_done [0, 0]
       (Elem (element ''ul'' [] [])
        [Elem (element ''li'' [''category''] [(''data'', ''/state/1'')])
           [Elem ((element ''input'' [''export-category-input''] [(''data'', ''/edit/1'')])\<lparr>checked := True\<rparr>) [],
            Elem (element ''span'' [''category-state''] []) [Text ''1/2'']]]))
     = [\<lparr>req_url = Some ''/state/1'', req_action = None, on_success = Category_state\<rparr>]"
  by (simp add: toggle_done_def update_sub_categories_def update_parent_categories_def
      ancestors_def li_category_def has_class_def attr_at_def attr_def element_def
      map_kids_def matches.simps)

text \<open>
  Claim C3, amended.  The toggled checkbox is at path \<open>p\<close>, its parent element has the
  children \<open>kids\<close>, and \<open>checked e\<close> is the state the click left it in.  The click
  handler sets every \<^verbatim>\<open>input\<close> below the parent to that state and issues exactly one
  request, to the URL in the checkbox's \<^verbatim>\<open>data\<close> attribute, with action \<^verbatim>\<open>add\<close>
  when the box is now checked and \<^verbatim>\<open>remove\<close> otherwise.  When that request succeeds,
  the callback empties every \<^verbatim>\<open>.category-state\<close> element below the parent and issues
  one state request for each \<^verbatim>\<open>li.category\<close> element above the checkbox, nearest
  first, to the URL in that element's \<^verbatim>\<open>data\<close> attribute.  That is one request for the
  toggled category itself, when the checkbox sits directly in its \<^verbatim>\<open>li.category\<close>, and
  one for every category above that one.  The callback of each of these requests installs
  the returned markup in the elements its selector names and sets \<^verbatim>\<open>checked\<close> of the
  elements the checkbox selector names to the returned boolean.
\<close>

theorem export_category_toggle:
  assumes "node_at p d = Some (Elem e ks)" and "p \<noteq> []"
    and "node_at (butlast p) d = Some (Elem pe kids)"
  shows "snd (export_category_input_click p d)
           = [\<lparr>req_url = attr ''data'' e,
               req_action = Some (if checked e then ''add'' else ''remove''),
               on_success = Toggle_done p\<rparr>]
       \<and> node_at (butlast p) (fst (export_category_input_click p d))
           = Some (Elem pe (map (each (\<lambda>x. tag x = ''input'') (\<lambda>x. x\<lparr>checked := checked e\<rparr>)) kids))
       \<and> (\<forall>x \<in> set (concat (map (select (\<lambda>x. tag x = ''input''))
               (map (each (\<lambda>x. tag x = ''input'') (\<lambda>x. x\<lparr>checked := checked e\<rparr>)) kids))).
             checked x = checked e)
       \<and> node_at (butlast p) (fst (toggle_done p d))
           = Some (Elem pe (map (set_html (matches ''.category-state'') []) kids))
       \<and> (\<forall>n \<in> set (concat (map (select_nodes (matches ''.category-state''))
               (map (set_html (matches ''.category-state'') []) kids))).
             \<exists>x. n = Elem x [])
       \<and> snd (toggle_done p d)
           = map (\<lambda>q. \<lparr>req_url = attr_at ''data'' q d, req_action = None,
                        on_success = Category_state\<rparr>)
               (filter (\<lambda>q. li_category (node_at q d)) (ancestors p))
       \<and> length (snd (toggle_done p d))
           = card {q. strict_prefix q p \<and> li_category (node_at q d)}
       \<and> length (snd (toggle_done p d))
           = (if li_category (node_at (butlast p) d) then 1 else 0)
               + card {q. strict_prefix q (butlast p) \<and> li_category (node_at q d)}
       \<and> category_state_success data d
           = each (matches (fst (state_checkbox data)))
               (\<lambda>x. x\<lparr>checked := snd (state_checkbox data)\<rparr>)
               (set_html (matches (fst (state_html data))) (snd (state_html data)) d)
       \<and> (\<forall>x \<in> set (select (matches (fst (state_checkbox data))) (category_state_success data d)).
             checked x = snd (state_checkbox data))"
proof -
  let ?inputs = "each (\<lambda>x. tag x = ''input'') (\<lambda>x. x\<lparr>checked := checked e\<rparr>)"
  have 1: "snd (export_category_input_click p d)
           = [\<lparr>req_url = attr ''data'' e,
               req_action = Some (if checked e then ''add'' else ''remove''),
               on_success = Toggle_done p\<rparr>]"
    using assms(1) by (simp add: export_category_input_click_def Let_def)
  have 2: "node_at (butlast p) (fst (export_category_input_click p d))
           = Some (Elem pe (map ?inputs kids))"
    using assms by (simp add: export_category_input_click_def Let_def node_at_update_at_eq
        map_kids_def)
  have 3: "checked x = checked e"
    if "x \<in> set (concat (map (select (\<lambda>x. tag x = ''input'')) (map ?inputs kids)))" for x
  proof -
    from that obtain k where "x \<in> set (select (\<lambda>x. tag x = ''input'') (?inputs k))"
      by auto
    then show ?thesis
      by (subst (asm) select_each) auto
  qed
  have 4: "node_at (butlast p) (fst (toggle_done p d))
           = Some (Elem pe (map (set_html (matches ''.category-state'') []) kids))"
    using assms by (simp add: toggle_done_def update_sub_categories_def Let_def
        node_at_update_at_eq map_kids_def)
  have 5: "\<exists>x. n = Elem x []"
    if "n \<in> set (concat (map (select_nodes (matches ''.category-state''))
               (map (set_html (matches ''.category-state'') []) kids)))" for n
    using that set_html_empty_nodes by auto
  have 6: "checked x = snd (state_checkbox data)"
    if "x \<in> set (select (matches (fst (state_checkbox data))) (category_state_success data d))"
    for x
    using that unfolding category_state_success_def Let_def
    by (subst (asm) select_each) auto
  have 7: "category_state_success data d
           = each (matches (fst (state_checkbox data)))
               (\<lambda>x. x\<lparr>checked := snd (state_checkbox data)\<rparr>)
               (set_html (matches (fst (state_html data))) (snd (state_html data)) d)"
    by (simp add: category_state_success_def)
  from 1 2 3 4 5 6 7 toggle_done_requests[of p d] toggle_done_count[of p d]
    toggle_done_count_own[OF assms(2), of d]
  show ?thesis by blast
qed

theorem export_category_toggle_witness:
  "export_category_input_click [0, 0]
     (Elem (element ''ul'' [] [])
       [Elem (element ''li'' [''category''] [(''data'', ''/state/1'')])
          [Elem ((element ''input'' [''export-category-input''] [(''data'', ''/edit/1'')])\<lparr>checked := True\<rparr>) [],
           Elem (element ''span'' [''category-state''] []) [Text ''1/2''],
           Elem (element ''ul'' [] [])
             [Elem (element ''li'' [''category''] [(''data'', ''/state/2'')])
                 [Elem ((element ''input'' [''export-category-input''] [(''data'', ''/edit/2'')])) [],
                  Elem (element ''span'' [''category-state''] []) [Text ''1/3'']]]]])
   = (Elem (element ''ul'' [] [])
       [Elem (element ''li'' [''category''] [(''data'', ''/state/1'')])
          [Elem ((element ''input'' [''export-category-input''] [(''data'', ''/edit/1'')])\<lparr>checked := True\<rparr>) [],
           Elem (element ''span'' [''category-state''] []) [Text ''1/2''],
           Elem (element ''ul'' [] [])
             [Elem (element ''li'' [''category''] [(''data'', ''/state/2'')])
                 [Elem ((element ''input'' [''export-category-input''] [(''data'', ''/edit/2'')])\<lparr>checked := True\<rparr>) [],
                  Elem (element ''span'' [''category-state''] []) [Text ''1/3'']]]]],
      [\<lparr>req_url = Some ''/edit/1'', req_action = Some ''add'', on_success = Toggle_done [0, 0]\<rparr>])
   \<and> snd (toggle_done [0, 2, 0, 0]
     (Elem (element ''ul'' [] [])
       [Elem (element ''li'' [''category''] [(''data'', ''/state/1'')])
          [Elem ((element ''input'' [''export-category-input''] [(''data'', ''/edit/1'')])\<lparr>checked := True\<rparr>) [],
           Elem (element ''span'' [''category-state''] []) [Text ''1/2''],
           Elem (element ''ul'' [] [])
             [Elem (element ''li'' [''category''] [(''data'', ''/state/2'')])
                 [Elem ((element ''input'' [''export-category-input''] [(''data'', ''/edit/2'')])\<lparr>checked := True\<rparr>) [],
                  Elem (element ''span'' [''category-state''] []) [Text ''1/3'']]]]]))
   = [\<lparr>req_url = Some ''/state/2'', req_action = None, on_success = Category_state\<rparr>,
      \<lparr>req_url = Some ''/state/1'', req_action = None, on_success = Category_state\<rparr>]"
proof -
  let ?d0 = "Elem (element ''ul'' [] [])
       [Elem (element ''li'' [''category''] [(''data'', ''/state/1'')])
          [Elem ((element ''input'' [''export-category-input''] [(''data'', ''/edit/1'')])\<lparr>checked := True\<rparr>) [],
           Elem (element ''span'' [''category-state''] []) [Text ''1/2''],
           Elem (element ''ul'' [] [])
             [Elem (element ''li'' [''category''] [(''data'', ''/state/2'')])
                 [Elem ((element ''input'' [''export-category-input''] [(''data'', ''/edit/2'')])) [],
                  Elem (element ''span'' [''category-state''] []) [Text ''1/3'']]]]]"
  let ?d1 = "Elem (element ''ul'' [] [])
       [Elem (element ''li'' [''category''] [(''data'', ''/state/1'')])
          [Elem ((element ''input'' [''export-category-input''] [(''data'', ''/edit/1'')])\<lparr>checked := True\<rparr>) [],
           Elem (element ''span'' [''category-state''] []) [Text ''1/2''],
           Elem (element ''ul'' [] [])
             [Elem (element ''li'' [''category''] [(''data'', ''/state/2'')])
                 [Elem ((element ''input'' [''export-category-input''] [(''data'', ''/edit/2'')])\<lparr>checked := True\<rparr>) [],
                  Elem (element ''span'' [''category-state''] []) [Text ''1/3'']]]]]"
  let ?e1 = "(element ''input'' [''export-category-input''] [(''data'', ''/edit/1'')])\<lparr>checked := True\<rparr>"
  let ?e2 = "(element ''input'' [''export-category-input''] [(''data'', ''/edit/2'')])\<lparr>checked := True\<rparr>"
  have a: "node_at [0, 0] ?d0 = Some (Elem ?e1 [])"
    and b: "[0, 0] \<noteq> ([] :: nat list)"
    by simp_all
  obtain pe kids where c: "node_at (butlast [0, 0]) ?d0 = Some (Elem pe kids)"
    by simp
  note t = export_category_toggle[OF a b c]
  have r: "snd (export_category_input_click [0, 0] ?d0)
             = [\<lparr>req_url = Some ''/edit/1'', req_action = Some ''add'',
                 on_success = Toggle_done [0, 0]\<rparr>]"
    using t[THEN conjunct1] by (simp add: attr_def element_def)
  have f: "fst (export_category_input_click [0, 0] ?d0) = ?d1"
    by (simp add: export_category_input_click_def map_kids_def each_def element_def)
  have a2: "node_at [0, 2, 0, 0] ?d1 = Some (Elem ?e2 [])"
    and b2: "[0, 2, 0, 0] \<noteq> ([] :: nat list)"
    by simp_all
  obtain pe2 kids2 where c2: "node_at (butlast [0, 2, 0, 0]) ?d1 = Some (Elem pe2 kids2)"
    by simp
  have s: "snd (toggle_done [0, 2, 0, 0] ?d1)
             = [\<lparr>req_url = Some ''/state/2'', req_action = None, on_success = Category_state\<rparr>,
                \<lparr>req_url = Some ''/state/1'', req_action = None, on_success = Category_state\<rparr>]"
    using export_category_toggle[OF a2 b2 c2, THEN conjunct2, THEN conjunct2, THEN conjunct2,
        THEN conjunct2, THEN conjunct2, THEN conjunct1]
    by (simp add: ancestors_def li_category_def has_class_def attr_at_def attr_def element_def)
  show ?thesis
    using r f s by (simp add: prod_eq_iff)
qed

end
